theory Spec2Isabelle
  imports Main "HOL-Library.Sublist"
begin

section \<open>Shared data\<close>

text \<open>
  A raw Umami CSV row after column mapping
  (\<^verbatim>\<open>interface UmamiEvent\<close> in \<^verbatim>\<open>client/src/lib/import/types.ts\<close>,
  \<^verbatim>\<open>umamiEventSchema\<close> in \<^verbatim>\<open>server/src/api/sites/batchImportEvents.ts\<close>):
  twenty string fields.
\<close>

record UmamiEvent =
  session_id :: string
  hostname :: string
  browser :: string
  os :: string
  device :: string
  screen :: string
  language :: string
  country :: string
  region :: string
  city :: string
  url_path :: string
  url_query :: string
  referrer_path :: string
  referrer_query :: string
  referrer_domain :: string
  page_title :: string
  event_type :: string
  event_name :: string
  distinct_id :: string
  created_at :: string

text \<open>
  JavaScript renders a number inside a template literal in decimal. The numbers printed by
  the code below are integers; they are modelled as mathematical integers (the source's
  doubles agree with them below \<open>2 ^ 53\<close>).
\<close>

fun string_of_nat :: "nat \<Rightarrow> string" where
  "string_of_nat n =
     (if n < 10 then [char_of (48 + n)]
      else string_of_nat (n div 10) @ [char_of (48 + n mod 10)])"

declare string_of_nat.simps [simp del]

definition string_of_int :: "int \<Rightarrow> string" where
  "string_of_int i = (if i < 0 then CHR ''-'' # string_of_nat (nat (- i)) else string_of_nat (nat i))"


section \<open>Server: the batch ingestion handler\<close>

subsection \<open>The import record and its store\<close>

datatype import_status = Pending | Processing | Completed | Failed

text \<open>
  One row of the \<^verbatim>\<open>importStatus\<close> table. The table's schema is not among the sources; the
  fields are the ones \<^verbatim>\<open>createSiteImport\<close> writes and \<^verbatim>\<open>batchImportEvents\<close> reads.
  \<open>platform\<close> is \<open>None\<close> for SQL \<^verbatim>\<open>null\<close>.
\<close>

record ImportRecord =
  siteId :: int
  organizationId :: string
  platform :: "string option"
  fileName :: string
  status :: import_status
  importedEvents :: nat
  errorMessage :: "string option"

text \<open>What a \<^verbatim>\<open>catch\<close> clause can receive: an \<^verbatim>\<open>Error\<close> with its message, or any other value.\<close>

datatype thrown = Error string | NonError

text \<open>
  The calls the handler makes to its collaborators, in the order it makes them. The log is
  part of the state, so that "before any authorization check or state read" is a statement
  about the state.
\<close>

datatype call =
    CallAuth
  | CallGetImport
  | CallUpdateStatus import_status
  | CallSetPlatform
  | CallSelectSite
  | CallQuotaCreate
  | CallInsert
  | CallUpdateProgress nat

text \<open>
  The state the handler works on: the \<^verbatim>\<open>importStatus\<close> table keyed by import id, the
  \<^verbatim>\<open>sites\<close> table (site id to organization id), the ClickHouse \<^verbatim>\<open>events\<close> table as the list
  of rows written so far (\<open>'c\<close> is the canonical event type the mapper produces), and the
  call log.
\<close>

record 'c server_state =
  importStatus :: "string \<rightharpoonup> ImportRecord"
  sites :: "int \<rightharpoonup> string"
  events_table :: "'c list"
  calls :: "call list"

definition note_call :: "call \<Rightarrow> 'c server_state \<Rightarrow> 'c server_state" where
  "note_call c st = st\<lparr>calls := calls st @ [c]\<rparr>"

text \<open>
  Modelled from the spec: \<^verbatim>\<open>getImportById\<close>, \<^verbatim>\<open>updateImportStatus\<close> and
  \<^verbatim>\<open>updateImportProgress\<close> of \<^verbatim>\<open>services/import/importStatusManager.js\<close>, which is not
  among the sources. The spec (4.3): the status update writes the status (and the error
  message when one is given); \<^verbatim>\<open>updateImportProgress(importId, delta)\<close> increments
  \<open>importedEvents\<close> by \<open>delta\<close>; either one "against a nonexistent import id ... must fail
  loudly", which is the result \<open>None\<close> here (the call throws).
\<close>

definition getImportById :: "string \<Rightarrow> 'c server_state \<Rightarrow> ImportRecord option" where
  "getImportById iid st = importStatus st iid"

definition updateImportStatus ::
  "string \<Rightarrow> import_status \<Rightarrow> string option \<Rightarrow> 'c server_state \<Rightarrow> 'c server_state option" where
  "updateImportStatus iid s msg st =
     (case importStatus st iid of
        None \<Rightarrow> None
      | Some r \<Rightarrow>
          Some (st\<lparr>importStatus := (importStatus st)(iid \<mapsto>
                  r\<lparr>status := s,
                    errorMessage := (case msg of None \<Rightarrow> errorMessage r | Some m \<Rightarrow> Some m)\<rparr>)\<rparr>))"

definition updateImportProgress ::
  "string \<Rightarrow> nat \<Rightarrow> 'c server_state \<Rightarrow> 'c server_state option" where
  "updateImportProgress iid delta st =
     (case importStatus st iid of
        None \<Rightarrow> None
      | Some r \<Rightarrow>
          Some (st\<lparr>importStatus := (importStatus st)(iid \<mapsto>
                  r\<lparr>importedEvents := importedEvents r + delta\<rparr>)\<rparr>))"

text \<open>
  \<^verbatim>\<open>db.update(importStatus).set({ platform }).where(eq(importStatus.importId, importId))\<close>:
  an SQL update, which changes the row when there is one and nothing otherwise.
\<close>

definition set_platform :: "string \<Rightarrow> string \<Rightarrow> 'c server_state \<Rightarrow> 'c server_state" where
  "set_platform iid p st =
     (case importStatus st iid of
        None \<Rightarrow> st
      | Some r \<Rightarrow> st\<lparr>importStatus := (importStatus st)(iid \<mapsto> r\<lparr>platform := Some p\<rparr>)\<rparr>)"


subsection \<open>The collaborators that are not among the sources\<close>

text \<open>\<^verbatim>\<open>quotaTracker.getSummary()\<close>: the three figures the handlers read.\<close>

record QuotaSummary =
  oldestAllowedMonth :: string
  totalMonthsInWindow :: nat
  monthsAtCapacity :: nat

text \<open>
  Everything \<^verbatim>\<open>batchImportEvents\<close> calls whose code is outside the sources is a field of the
  environment, so that every theorem below holds for whatever these do:
  \<^item> \<open>is_uuid\<close>: zod's \<^verbatim>\<open>z.string().uuid()\<close>;
  \<^item> \<open>Number\<close>: JavaScript's \<^verbatim>\<open>Number(site)\<close>, \<open>None\<close> when the result is not an integer
    (\<^verbatim>\<open>NaN\<close> or a fraction, which no \<open>siteId\<close> of the table equals);
  \<^item> \<open>getUserHasAdminAccessToSite\<close>: the authorization check for the requesting user;
  \<^item> \<open>quota_create\<close>: \<^verbatim>\<open>ImportQuotaTracker.create(organizationId)\<close>, which may throw;
    \<open>'q\<close> is the tracker's state;
  \<^item> \<open>canImportEvent\<close>: the tracker's answer for one timestamp, with the tracker's state
    after the call (the tracker may count what it admits);
  \<^item> \<open>getSummary\<close>: the tracker's summary;
  \<^item> \<open>transform\<close>: \<^verbatim>\<open>UmamiImportMapper.transform(events, site, importId)\<close>;
  \<^item> \<open>clickhouse_insert\<close>: \<open>None\<close> when the bulk write of the given rows succeeds, the
    thrown value when it fails;
  \<^item> \<open>store_error\<close>: what the import store throws on an unknown import id.

  The authorization check, \<open>canImportEvent\<close>, \<open>getSummary\<close> and \<open>transform\<close> are taken to
  return; an exception out of them would end in one of the two \<^verbatim>\<open>catch\<close> clauses with a 500
  reply.
\<close>

record ('q, 'c) env =
  is_uuid :: "string \<Rightarrow> bool"
  Number :: "string \<Rightarrow> int option"
  getUserHasAdminAccessToSite :: "string \<Rightarrow> bool"
  quota_create :: "string \<Rightarrow> thrown + 'q"
  canImportEvent :: "'q \<Rightarrow> string \<Rightarrow> bool \<times> 'q"
  getSummary :: "'q \<Rightarrow> QuotaSummary"
  transform :: "UmamiEvent list \<Rightarrow> string \<Rightarrow> string \<Rightarrow> 'c list"
  clickhouse_insert :: "'c list \<Rightarrow> thrown option"
  store_error :: thrown


subsection \<open>Request and reply\<close>

text \<open>
  The request after Fastify has decoded it: \<^verbatim>\<open>params.site\<close> and the four fields of the body.
  \<open>batchIndex\<close> and \<open>totalBatches\<close> are integers here; a JSON number that is not an integer
  fails \<^verbatim>\<open>z.number().int()\<close> in the source and is outside this type.
\<close>

record BatchImportRequest =
  req_site :: string
  req_events :: "UmamiEvent list"
  req_importId :: string
  req_batchIndex :: int
  req_totalBatches :: int

text \<open>
  The reply: the HTTP status (\<^verbatim>\<open>reply.send\<close> without \<^verbatim>\<open>status\<close> is 200) and the fields of the
  JSON body the handler sets; a field the handler leaves out is \<open>None\<close>. The \<^verbatim>\<open>details\<close> of a
  validation error (zod's flattened error) are not modelled.
\<close>

record reply =
  http_status :: nat
  success :: "bool option"
  error :: "string option"
  importedCount :: "nat option"
  message :: "string option"

definition error_reply :: "nat \<Rightarrow> string \<Rightarrow> reply" where
  "error_reply c e =
     \<lparr>http_status = c, success = None, error = Some e, importedCount = None, message = None\<rparr>"

definition failure_reply :: "nat \<Rightarrow> string \<Rightarrow> string \<Rightarrow> reply" where
  "failure_reply c e m =
     \<lparr>http_status = c, success = Some False, error = Some e, importedCount = None,
      message = Some m\<rparr>"

definition success_reply :: "nat \<Rightarrow> string \<Rightarrow> reply" where
  "success_reply n m =
     \<lparr>http_status = 200, success = Some True, error = None, importedCount = Some n,
      message = Some m\<rparr>"


subsection \<open>\<^verbatim>\<open>batchImportRequestSchema\<close>\<close>

definition batchImportRequestSchema :: "('q, 'c) env \<Rightarrow> BatchImportRequest \<Rightarrow> bool" where
  "batchImportRequestSchema env rq \<longleftrightarrow>
     1 \<le> length (req_site rq) \<and>
     1 \<le> length (req_events rq) \<and> length (req_events rq) \<le> 10000 \<and>
     is_uuid env (req_importId rq) \<and>
     0 \<le> req_batchIndex rq \<and>
     1 \<le> req_totalBatches rq"


subsection \<open>The quota re-filter (the \<^verbatim>\<open>for (const event of events)\<close> loop)\<close>

text \<open>
  The accumulators are the loop's variables: \<open>acc\<close> is \<^verbatim>\<open>eventsWithinQuota\<close>, \<open>skipped\<close> is
  \<^verbatim>\<open>skippedDueToQuota\<close>, \<open>q\<close> the tracker. An event with an empty \<^verbatim>\<open>created_at\<close> is passed
  over without asking the tracker and without counting it.
\<close>

fun quota_loop ::
  "('q \<Rightarrow> string \<Rightarrow> bool \<times> 'q) \<Rightarrow> UmamiEvent list \<Rightarrow> 'q \<Rightarrow> UmamiEvent list \<Rightarrow> nat
     \<Rightarrow> UmamiEvent list \<times> nat \<times> 'q" where
  "quota_loop can [] q acc skipped = (acc, skipped, q)"
| "quota_loop can (e # es) q acc skipped =
     (if created_at e = [] then quota_loop can es q acc skipped
      else (case can q (created_at e) of
              (True, q') \<Rightarrow> quota_loop can es q' (acc @ [e]) skipped
            | (False, q') \<Rightarrow> quota_loop can es q' acc (skipped + 1)))"

definition quota_error_message :: "nat \<Rightarrow> int \<Rightarrow> QuotaSummary \<Rightarrow> string" where
  "quota_error_message n batchIndex s =
     ''All '' @ string_of_nat n @ '' events in batch '' @ string_of_int batchIndex @
     '' exceeded monthly quotas or fell outside the '' @
     string_of_nat (totalMonthsInWindow s) @ ''-month historical window. '' @
     string_of_nat (monthsAtCapacity s) @ '' of '' @ string_of_nat (totalMonthsInWindow s) @
     '' months are at full capacity.''"

definition batch_label :: "int \<Rightarrow> int \<Rightarrow> string" where
  "batch_label batchIndex totalBatches =
     ''Batch '' @ string_of_int (batchIndex + 1) @ ''/'' @ string_of_int totalBatches"

definition thrown_message :: "thrown \<Rightarrow> string" where
  "thrown_message t = (case t of Error m \<Rightarrow> m | NonError \<Rightarrow> ''Unknown error'')"

text \<open>The reply of the inner \<^verbatim>\<open>catch (insertError)\<close>.\<close>

definition insert_failed_reply :: "thrown \<Rightarrow> reply" where
  "insert_failed_reply t = failure_reply 500 ''Failed to insert events'' (thrown_message t)"


subsection \<open>The inner \<^verbatim>\<open>try\<close> block: quota, transformation, write, progress\<close>

definition ingest ::
  "('q, 'c) env \<Rightarrow> BatchImportRequest \<Rightarrow> string \<Rightarrow> 'c server_state \<Rightarrow> reply \<times> 'c server_state" where
  "ingest env rq org st0 =
     (let st1 = note_call CallQuotaCreate st0 in
      case quota_create env org of
        Inl t \<Rightarrow> (insert_failed_reply t, st1)
      | Inr q0 \<Rightarrow>
          (case quota_loop (canImportEvent env) (req_events rq) q0 [] 0 of
             (eventsWithinQuota, skippedDueToQuota, q) \<Rightarrow>
               if length eventsWithinQuota = 0 \<and> length (req_events rq) > 0 then
                 (let errorMessage =
                        quota_error_message (length (req_events rq)) (req_batchIndex rq)
                          (getSummary env q)
                  in if req_batchIndex rq = 0 \<or> req_totalBatches rq = 1 then
                       (case updateImportStatus (req_importId rq) Failed (Some errorMessage)
                               (note_call (CallUpdateStatus Failed) st1) of
                          None \<Rightarrow>
                            (insert_failed_reply (store_error env),
                             note_call (CallUpdateStatus Failed) st1)
                        | Some st2 \<Rightarrow> (failure_reply 400 ''Quota exceeded'' errorMessage, st2))
                     else (failure_reply 400 ''Quota exceeded'' errorMessage, st1))
               else
                 (let transformedEvents =
                        transform env eventsWithinQuota (req_site rq) (req_importId rq)
                  in if length transformedEvents = 0 then
                       (success_reply 0
                          (batch_label (req_batchIndex rq) (req_totalBatches rq) @
                           '': No valid events''),
                        st1)
                     else
                       (let st2 = note_call CallInsert st1 in
                        case clickhouse_insert env transformedEvents of
                          Some t \<Rightarrow> (insert_failed_reply t, st2)
                        | None \<Rightarrow>
                            (let st3 = note_call (CallUpdateProgress (length transformedEvents))
                                         (st2\<lparr>events_table := events_table st2 @ transformedEvents\<rparr>)
                             in case updateImportProgress (req_importId rq)
                                       (length transformedEvents) st3 of
                                  None \<Rightarrow> (insert_failed_reply (store_error env), st3)
                                | Some st4 \<Rightarrow>
                                    (success_reply (length transformedEvents)
                                       (batch_label (req_batchIndex rq) (req_totalBatches rq) @
                                        '' imported successfully'' @
                                        (if skippedDueToQuota > 0 then
                                           '' ('' @ string_of_nat skippedDueToQuota @
                                           '' events skipped due to quota)''
                                         else '''')),
                                     st4))))))"


subsection \<open>\<^verbatim>\<open>batchImportEvents\<close>\<close>

text \<open>\<^verbatim>\<open>!detectedPlatform\<close>: \<^verbatim>\<open>null\<close> and the empty string are both falsy.\<close>

definition platform_unset :: "string option \<Rightarrow> bool" where
  "platform_unset p \<longleftrightarrow> (case p of None \<Rightarrow> True | Some s \<Rightarrow> s = [])"

text \<open>Lines 101 to 132 of the handler: status, platform, then the site lookup.\<close>

definition prepare ::
  "('q, 'c) env \<Rightarrow> BatchImportRequest \<Rightarrow> ImportRecord \<Rightarrow> 'c server_state \<Rightarrow> reply \<times> 'c server_state" where
  "prepare env rq importRecord st0 =
     (case (if status importRecord = Pending
            then updateImportStatus (req_importId rq) Processing None
                   (note_call (CallUpdateStatus Processing) st0)
            else Some st0) of
        None \<Rightarrow>
          (error_reply 500 ''Internal server error'', note_call (CallUpdateStatus Processing) st0)
      | Some st1 \<Rightarrow>
          (let st2 = (if platform_unset (platform importRecord)
                      then set_platform (req_importId rq) ''umami'' (note_call CallSetPlatform st1)
                      else st1);
               st3 = note_call CallSelectSite st2
           in case sites st3 (siteId importRecord) of
                None \<Rightarrow> (error_reply 404 ''Site not found'', st3)
              | Some org \<Rightarrow> ingest env rq org st3))"

definition batchImportEvents ::
  "('q, 'c) env \<Rightarrow> BatchImportRequest \<Rightarrow> 'c server_state \<Rightarrow> reply \<times> 'c server_state" where
  "batchImportEvents env rq st =
     (if \<not> batchImportRequestSchema env rq then (error_reply 400 ''Validation error'', st)
      else
        (let st1 = note_call CallAuth st in
         if \<not> getUserHasAdminAccessToSite env (req_site rq) then (error_reply 403 ''Forbidden'', st1)
         else
           (let st2 = note_call CallGetImport st1 in
            case getImportById (req_importId rq) st2 of
              None \<Rightarrow> (error_reply 404 ''Import not found'', st2)
            | Some importRecord \<Rightarrow>
                if Some (siteId importRecord) \<noteq> Number env (req_site rq)
                then (error_reply 400 ''Import does not belong to this site'', st2)
                else if status importRecord = Completed
                then (error_reply 400 ''Import already completed'', st2)
                else if status importRecord = Failed
                then (error_reply 400 ''Import has failed'', st2)
                else prepare env rq importRecord st2)))"


subsection \<open>What lines 101 to 120 leave behind\<close>

text \<open>
  The import record after the status and platform updates of a submission that got past the
  state checks, and the calls made up to the site lookup. Both are read off \<open>prepare\<close>; the
  lemma \<open>batchImportEvents_admitted\<close> below proves that they describe it.
\<close>

definition prepared :: "ImportRecord \<Rightarrow> ImportRecord" where
  "prepared r =
     r\<lparr>status := Processing,
       platform := (if platform_unset (platform r) then Some ''umami'' else platform r)\<rparr>"

definition prepare_calls :: "ImportRecord \<Rightarrow> call list" where
  "prepare_calls r =
     [CallAuth, CallGetImport] @
     (if status r = Pending then [CallUpdateStatus Processing] else []) @
     (if platform_unset (platform r) then [CallSetPlatform] else []) @ [CallSelectSite]"


section \<open>Client: the streaming parser (the import worker)\<close>

subsection \<open>Messages and state\<close>

definition CHUNK_SIZE :: nat where
  "CHUNK_SIZE = 5000"

definition PROGRESS_UPDATE_INTERVAL :: nat where
  "PROGRESS_UPDATE_INTERVAL = 1000"

text \<open>\<^verbatim>\<open>WorkerMessageToMain\<close>; the \<^verbatim>\<open>error\<close> object of an \<^verbatim>\<open>ERROR\<close> message is left out.\<close>

datatype WorkerMessageToMain =
    PROGRESS nat nat nat
  | CHUNK_READY "UmamiEvent list" nat
  | COMPLETE nat nat nat "(nat \<times> string) list"
  | ERROR string

text \<open>
  A Luxon \<^verbatim>\<open>DateTime\<close> in zone UTC: \<open>Some t\<close> is the valid instant \<open>t\<close> (milliseconds since
  the epoch, its \<^verbatim>\<open>valueOf()\<close>), \<open>None\<close> an invalid one (\<^verbatim>\<open>isValid\<close> false, \<^verbatim>\<open>valueOf()\<close>
  \<^verbatim>\<open>NaN\<close>).
\<close>

type_synonym DateTime = "int option"

text \<open>
  Luxon itself is a library outside the sources, so its three functions the worker calls
  are parameters: \<^verbatim>\<open>DateTime.fromFormat(text, format, { zone: "utc" })\<close>, \<^verbatim>\<open>startOf("day")\<close> and
  \<^verbatim>\<open>endOf("day")\<close>.
\<close>

record luxon =
  fromFormat :: "string \<Rightarrow> string \<Rightarrow> DateTime"
  startOf_day :: "DateTime \<Rightarrow> DateTime"
  endOf_day :: "DateTime \<Rightarrow> DateTime"

text \<open>
  JavaScript's \<^verbatim>\<open>a < b\<close> on two \<^verbatim>\<open>DateTime\<close>s compares their \<^verbatim>\<open>valueOf()\<close>; a comparison with
  \<^verbatim>\<open>NaN\<close> is false.
\<close>

definition dt_less :: "DateTime \<Rightarrow> DateTime \<Rightarrow> bool" where
  "dt_less a b = (case (a, b) of (Some x, Some y) \<Rightarrow> x < y | _ \<Rightarrow> False)"

text \<open>
  The module-level variables of the worker, and the messages it has posted with
  \<^verbatim>\<open>self.postMessage\<close>, oldest first. The four date variables are \<^verbatim>\<open>DateTime | null\<close>:
  \<open>None\<close> is \<^verbatim>\<open>null\<close>.
\<close>

record worker_state =
  currentBatch :: "UmamiEvent list"
  chunkIndex :: nat
  totalParsed :: nat
  totalSkipped :: nat
  totalErrors :: nat
  errorDetails :: "(nat \<times> string) list"
  lastProgressUpdate :: nat
  earliestAllowedDate :: "DateTime option"
  latestAllowedDate :: "DateTime option"
  userStartDate :: "DateTime option"
  userEndDate :: "DateTime option"
  posted :: "WorkerMessageToMain list"

definition postMessage :: "WorkerMessageToMain \<Rightarrow> worker_state \<Rightarrow> worker_state" where
  "postMessage m st = st\<lparr>posted := posted st @ [m]\<rparr>"


subsection \<open>\<^verbatim>\<open>createDateRangeFilter\<close>\<close>

text \<open>An optional string argument that is \<^verbatim>\<open>undefined\<close> or empty is falsy.\<close>

definition given :: "string option \<Rightarrow> string option" where
  "given s = (case s of None \<Rightarrow> None | Some t \<Rightarrow> if t = [] then None else Some t)"

text \<open>
  \<open>Inl\<close> is the message of the \<^verbatim>\<open>Error\<close> thrown. (The source has assigned some of the four
  variables before it throws; the next \<^verbatim>\<open>PARSE_START\<close> assigns them again before any row is
  read, so the state at a throw is not kept.)
\<close>

definition createDateRangeFilter ::
  "luxon \<Rightarrow> string \<Rightarrow> string \<Rightarrow> string option \<Rightarrow> string option \<Rightarrow> worker_state
     \<Rightarrow> string + worker_state" where
  "createDateRangeFilter lx earliestAllowedDateStr latestAllowedDateStr userStartDateStr
       userEndDateStr st =
     (let earliest = startOf_day lx (fromFormat lx earliestAllowedDateStr ''yyyy-MM-dd'');
          latest = endOf_day lx (fromFormat lx latestAllowedDateStr ''yyyy-MM-dd'')
      in if earliest = None then Inl (''Invalid earliest allowed date: '' @ earliestAllowedDateStr)
         else if latest = None then Inl (''Invalid latest allowed date: '' @ latestAllowedDateStr)
         else
           (let userStart = map_option (\<lambda>s. (s, startOf_day lx (fromFormat lx s ''yyyy-MM-dd'')))
                              (given userStartDateStr);
                userEnd = map_option (\<lambda>s. (s, endOf_day lx (fromFormat lx s ''yyyy-MM-dd'')))
                            (given userEndDateStr)
            in case userStart of
                 Some (s, None) \<Rightarrow> Inl (''Invalid user start date: '' @ s)
               | _ \<Rightarrow>
                   (case userEnd of
                      Some (s, None) \<Rightarrow> Inl (''Invalid user end date: '' @ s)
                    | _ \<Rightarrow>
                        Inr (st\<lparr>earliestAllowedDate := Some earliest,
                                latestAllowedDate := Some latest,
                                userStartDate := map_option snd userStart,
                                userEndDate := map_option snd userEnd\<rparr>))))"


subsection \<open>\<^verbatim>\<open>isDateInRange\<close>, \<^verbatim>\<open>sendChunk\<close>, \<^verbatim>\<open>sendProgress\<close>\<close>

definition isDateInRange :: "luxon \<Rightarrow> worker_state \<Rightarrow> string \<Rightarrow> bool" where
  "isDateInRange lx st dateStr =
     (let createdAt = fromFormat lx dateStr ''yyyy-MM-dd HH:mm:ss''
      in if createdAt = None then False
         else if (case earliestAllowedDate st of None \<Rightarrow> False | Some d \<Rightarrow> dt_less createdAt d)
         then False
         else if (case latestAllowedDate st of None \<Rightarrow> False | Some d \<Rightarrow> dt_less d createdAt)
         then False
         else if (case userStartDate st of None \<Rightarrow> False | Some d \<Rightarrow> dt_less createdAt d)
         then False
         else if (case userEndDate st of None \<Rightarrow> False | Some d \<Rightarrow> dt_less d createdAt)
         then False
         else True)"

definition sendChunk :: "worker_state \<Rightarrow> worker_state" where
  "sendChunk st =
     (if length (currentBatch st) > 0
      then (postMessage (CHUNK_READY (currentBatch st) (chunkIndex st)) st)
             \<lparr>chunkIndex := chunkIndex st + 1, currentBatch := []\<rparr>
      else st)"

definition sendProgress :: "worker_state \<Rightarrow> worker_state" where
  "sendProgress st = postMessage (PROGRESS (totalParsed st) (totalSkipped st) (totalErrors st)) st"


subsection \<open>\<^verbatim>\<open>handleParsedRow\<close>\<close>

text \<open>
  A row as Papa Parse hands it over with \<^verbatim>\<open>header: true\<close>: an object from column names to
  strings, in which a column the line did not have is absent.
\<close>

type_synonym raw_row = "string \<rightharpoonup> string"

text \<open>\<^verbatim>\<open>String(rawEvent.f || "")\<close>: an absent or empty field gives the empty string.\<close>

definition field :: "raw_row \<Rightarrow> string \<Rightarrow> string" where
  "field rawEvent f = (case rawEvent f of None \<Rightarrow> [] | Some v \<Rightarrow> v)"

definition to_event :: "raw_row \<Rightarrow> UmamiEvent" where
  "to_event rawEvent =
     \<lparr>session_id = field rawEvent ''session_id'',
      hostname = field rawEvent ''hostname'',
      browser = field rawEvent ''browser'',
      os = field rawEvent ''os'',
      device = field rawEvent ''device'',
      screen = field rawEvent ''screen'',
      language = field rawEvent ''language'',
      country = field rawEvent ''country'',
      region = field rawEvent ''region'',
      city = field rawEvent ''city'',
      url_path = field rawEvent ''url_path'',
      url_query = field rawEvent ''url_query'',
      referrer_path = field rawEvent ''referrer_path'',
      referrer_query = field rawEvent ''referrer_query'',
      referrer_domain = field rawEvent ''referrer_domain'',
      page_title = field rawEvent ''page_title'',
      event_type = field rawEvent ''event_type'',
      event_name = field rawEvent ''event_name'',
      distinct_id = field rawEvent ''distinct_id'',
      created_at = field rawEvent ''created_at''\<rparr>"

text \<open>
  The row index is not used by the function. The difference
  \<^verbatim>\<open>totalParsed - lastProgressUpdate\<close> is taken in the integers, as the source's numbers do.
\<close>

definition handleParsedRow :: "luxon \<Rightarrow> raw_row \<Rightarrow> nat \<Rightarrow> worker_state \<Rightarrow> worker_state" where
  "handleParsedRow lx row rowIndex st =
     (let umamiEvent = to_event row
      in if created_at umamiEvent = [] then st\<lparr>totalSkipped := totalSkipped st + 1\<rparr>
         else if \<not> isDateInRange lx st (created_at umamiEvent)
         then st\<lparr>totalSkipped := totalSkipped st + 1\<rparr>
         else
           (let st1 = st\<lparr>currentBatch := currentBatch st @ [umamiEvent],
                         totalParsed := totalParsed st + 1\<rparr>;
                st2 = (if length (currentBatch st1) \<ge> CHUNK_SIZE then sendChunk st1 else st1)
            in if int (totalParsed st2) - int (lastProgressUpdate st2) \<ge> int PROGRESS_UPDATE_INTERVAL
               then (sendProgress st2)\<lparr>lastProgressUpdate := totalParsed st2\<rparr>
               else st2))"


subsection \<open>\<^verbatim>\<open>parseCSV\<close>\<close>

text \<open>
  What Papa Parse passes to the \<^verbatim>\<open>step\<close> callback: the row (\<open>None\<close> when \<^verbatim>\<open>results.data\<close> is
  falsy) and the messages of \<^verbatim>\<open>results.errors\<close>.
\<close>

record step_results =
  data :: "raw_row option"
  errors :: "string list"

text \<open>\<^verbatim>\<open>messages.join(", ")\<close>.\<close>

fun join_comma :: "string list \<Rightarrow> string" where
  "join_comma [] = []"
| "join_comma [m] = m"
| "join_comma (m # ms) = m @ '', '' @ join_comma ms"

text \<open>The \<^verbatim>\<open>step\<close> callback; \<open>rowIndex\<close> is the local variable of \<^verbatim>\<open>parseCSV\<close>.\<close>

definition step :: "luxon \<Rightarrow> step_results \<Rightarrow> worker_state \<times> nat \<Rightarrow> worker_state \<times> nat" where
  "step lx results s =
     (case s of (st, rowIndex) \<Rightarrow>
        (let (st1, rowIndex1) =
               (case data results of
                  Some row \<Rightarrow> (handleParsedRow lx row rowIndex st, rowIndex + 1)
                | None \<Rightarrow> (st, rowIndex))
         in if length (errors results) > 0
            then (st1\<lparr>totalErrors := totalErrors st1 + 1,
                     errorDetails :=
                       (if length (errorDetails st1) < 100
                        then errorDetails st1 @ [(rowIndex1, join_comma (errors results))]
                        else errorDetails st1)\<rparr>,
                  rowIndex1)
            else (st1, rowIndex1)))"

definition complete :: "worker_state \<Rightarrow> worker_state" where
  "complete st =
     (let st1 = sendChunk st;
          st2 = sendProgress st1
      in postMessage (COMPLETE (totalParsed st2) (totalSkipped st2) (totalErrors st2)
                        (errorDetails st2)) st2)"

text \<open>
  How a run of \<^verbatim>\<open>Papa.parse\<close> on the file goes is the input of the model: the \<^verbatim>\<open>step\<close> calls
  it makes, in order, and how it ends: with the \<^verbatim>\<open>complete\<close> callback, with the \<^verbatim>\<open>error\<close>
  callback, or cut short because the worker was closed (\<^verbatim>\<open>CANCEL\<close>).
\<close>

datatype parse_end = Completes | Fails string | Cancelled

record papa_run =
  step_calls :: "step_results list"
  ending :: parse_end

definition run_steps :: "luxon \<Rightarrow> step_results list \<Rightarrow> worker_state \<times> nat \<Rightarrow> worker_state \<times> nat" where
  "run_steps lx rs s = foldl (\<lambda>acc r. step lx r acc) s rs"

definition parseCSV :: "luxon \<Rightarrow> papa_run \<Rightarrow> worker_state \<Rightarrow> worker_state" where
  "parseCSV lx file st =
     (let st1 = fst (run_steps lx (step_calls file) (st, 0))
      in case ending file of
           Completes \<Rightarrow> complete st1
         | Fails m \<Rightarrow> postMessage (ERROR m) st1
         | Cancelled \<Rightarrow> st1)"


subsection \<open>The \<^verbatim>\<open>PARSE_START\<close> branch of \<^verbatim>\<open>self.onmessage\<close>\<close>

record parse_start =
  msg_file :: papa_run
  msg_earliestAllowedDate :: string
  msg_latestAllowedDate :: string
  startDate :: "string option"
  endDate :: "string option"

definition reset_state :: "worker_state \<Rightarrow> worker_state" where
  "reset_state st =
     st\<lparr>currentBatch := [], chunkIndex := 0, totalParsed := 0, totalSkipped := 0,
        totalErrors := 0, errorDetails := [], lastProgressUpdate := 0\<rparr>"

definition on_parse_start :: "luxon \<Rightarrow> parse_start \<Rightarrow> worker_state \<Rightarrow> string + worker_state" where
  "on_parse_start lx m st =
     (case createDateRangeFilter lx (msg_earliestAllowedDate m) (msg_latestAllowedDate m)
             (startDate m) (endDate m) (reset_state st) of
        Inl e \<Rightarrow> Inl e
      | Inr st1 \<Rightarrow> Inr (parseCSV lx (msg_file m) st1))"


subsection \<open>Reading the posted messages\<close>

text \<open>The \<^verbatim>\<open>CHUNK_READY\<close> messages of a list of messages, as pairs of events and chunk index.\<close>

fun chunks_of :: "WorkerMessageToMain list \<Rightarrow> (UmamiEvent list \<times> nat) list" where
  "chunks_of [] = []"
| "chunks_of (CHUNK_READY es i # ms) = (es, i) # chunks_of ms"
| "chunks_of (m # ms) = chunks_of ms"

text \<open>The two checks of \<^verbatim>\<open>handleParsedRow\<close> that let a row into the batch.\<close>

definition admits :: "luxon \<Rightarrow> worker_state \<Rightarrow> raw_row \<Rightarrow> bool" where
  "admits lx st row \<longleftrightarrow>
     created_at (to_event row) \<noteq> [] \<and> isDateInRange lx st (created_at (to_event row))"

text \<open>The rows of the \<^verbatim>\<open>step\<close> calls that had one, in order.\<close>

definition rows_of :: "step_results list \<Rightarrow> raw_row list" where
  "rows_of rs = concat (map (\<lambda>r. case data r of None \<Rightarrow> [] | Some row \<Rightarrow> [row]) rs)"


text \<open>The events of the rows that \<^verbatim>\<open>handleParsedRow\<close> lets into the batch, in order.\<close>

definition accepted :: "luxon \<Rightarrow> worker_state \<Rightarrow> step_results list \<Rightarrow> UmamiEvent list" where
  "accepted lx st rs = map to_event (filter (admits lx st) (rows_of rs))"


subsection \<open>Notions used in the proofs\<close>

text \<open>
  \<open>same_dates\<close>: two worker states with the same four date filters. \<open>chunk_trace st st' evs\<close>:
  between \<open>st\<close> and \<open>st'\<close> the worker has accepted the events \<open>evs\<close>, every chunk it posted
  meanwhile is full, the chunk indices continue from \<open>chunkIndex st\<close>, the posted chunks
  followed by the buffer of \<open>st'\<close> are the buffer of \<open>st\<close> followed by \<open>evs\<close>, and the buffer
  of \<open>st'\<close> is not full.
\<close>

definition same_dates :: "worker_state \<Rightarrow> worker_state \<Rightarrow> bool" where
  "same_dates st st' \<longleftrightarrow>
     earliestAllowedDate st' = earliestAllowedDate st \<and>
     latestAllowedDate st' = latestAllowedDate st \<and>
     userStartDate st' = userStartDate st \<and>
     userEndDate st' = userEndDate st"

definition chunk_trace :: "worker_state \<Rightarrow> worker_state \<Rightarrow> UmamiEvent list \<Rightarrow> bool" where
  "chunk_trace st st' evs \<longleftrightarrow>
     (\<exists>new. posted st' = posted st @ new \<and>
        (\<forall>c \<in> set (chunks_of new). length (fst c) = CHUNK_SIZE) \<and>
        map snd (chunks_of new) = [chunkIndex st..<chunkIndex st + length (chunks_of new)] \<and>
        chunkIndex st' = chunkIndex st + length (chunks_of new) \<and>
        concat (map fst (chunks_of new)) @ currentBatch st' = currentBatch st @ evs) \<and>
     length (currentBatch st') < CHUNK_SIZE \<and> same_dates st st'"


section \<open>Scenario values\<close>

definition row_at :: "string \<Rightarrow> UmamiEvent" where
  "row_at ts =
     \<lparr>session_id = ''s1'', hostname = ''example.com'', browser = ''firefox'', os = ''linux'',
      device = ''desktop'', screen = ''1920x1080'', language = ''en'', country = ''DE'',
      region = '''', city = '''', url_path = ''/'', url_query = '''', referrer_path = '''',
      referrer_query = '''', referrer_domain = '''', page_title = ''Home'', event_type = ''1'',
      event_name = '''', distinct_id = '''', created_at = ts\<rparr>"

definition scenario_importId :: string where
  "scenario_importId = ''123e4567-e89b-12d3-a456-426614174000''"

definition scenario_env :: "bool \<Rightarrow> thrown option \<Rightarrow> (unit, UmamiEvent) env" where
  "scenario_env has_capacity write_result =
     \<lparr>is_uuid = (\<lambda>s. length s = 36),
      Number = (\<lambda>s. if s = ''1'' then Some 1 else None),
      getUserHasAdminAccessToSite = (\<lambda>s. True),
      quota_create = (\<lambda>org. Inr ()),
      canImportEvent = (\<lambda>q ts. (has_capacity, q)),
      getSummary = (\<lambda>q. \<lparr>oldestAllowedMonth = ''202401'', totalMonthsInWindow = 6,
                          monthsAtCapacity = (if has_capacity then 0 else 6)\<rparr>),
      transform = (\<lambda>es site iid. es),
      clickhouse_insert = (\<lambda>rows. write_result),
      store_error = Error ''Import not found''\<rparr>"

definition scenario_record :: "import_status \<Rightarrow> string option \<Rightarrow> nat \<Rightarrow> ImportRecord" where
  "scenario_record s p n =
     \<lparr>siteId = 1, organizationId = ''org1'', platform = p, fileName = ''export.csv'',
      status = s, importedEvents = n, errorMessage = None\<rparr>"

definition scenario_state ::
  "ImportRecord \<Rightarrow> bool \<Rightarrow> UmamiEvent server_state" where
  "scenario_state r site_exists =
     \<lparr>importStatus = [scenario_importId \<mapsto> r],
      sites = (if site_exists then [1 \<mapsto> ''org1''] else Map.empty),
      events_table = [], calls = []\<rparr>"

definition scenario_request :: "int \<Rightarrow> int \<Rightarrow> UmamiEvent list \<Rightarrow> BatchImportRequest" where
  "scenario_request i n es =
     \<lparr>req_site = ''1'', req_events = es, req_importId = scenario_importId,
      req_batchIndex = i, req_totalBatches = n\<rparr>"

text \<open>
  Luxon's answers on the strings the scenarios use (epoch milliseconds, UTC); every other
  string, such as \<open>''not-a-date''\<close>, is invalid for it.
\<close>

definition scenario_luxon :: luxon where
  "scenario_luxon =
     \<lparr>fromFormat = (\<lambda>s f.
        if f = ''yyyy-MM-dd HH:mm:ss''
        then map_of [(''2024-03-15 10:00:00'', 1710496800000),
                     (''2023-12-31 23:59:59'', 1704067199000)] s
        else if f = ''yyyy-MM-dd''
        then map_of [(''2024-01-01'', 1704067200000), (''2024-06-30'', 1719705600000)] s
        else None),
      startOf_day = map_option (\<lambda>t. t - t mod 86400000),
      endOf_day = map_option (\<lambda>t. t - t mod 86400000 + 86399999)\<rparr>"

definition scenario_worker :: worker_state where
  "scenario_worker =
     \<lparr>currentBatch = [], chunkIndex = 0, totalParsed = 0, totalSkipped = 0, totalErrors = 0,
      errorDetails = [], lastProgressUpdate = 0,
      earliestAllowedDate = Some (Some 1704067200000),
      latestAllowedDate = Some (Some 1719791999999),
      userStartDate = None, userEndDate = None, posted = []\<rparr>"

definition scenario_row :: "string \<Rightarrow> raw_row" where
  "scenario_row ts = [''session_id'' \<mapsto> ''s1'', ''hostname'' \<mapsto> ''example.com'',
                      ''url_path'' \<mapsto> ''/'', ''created_at'' \<mapsto> ts]"

definition scenario_start :: "step_results list \<Rightarrow> parse_end \<Rightarrow> parse_start" where
  "scenario_start rs e =
     \<lparr>msg_file = \<lparr>step_calls = rs, ending = e\<rparr>,
      msg_earliestAllowedDate = ''2024-01-01'', msg_latestAllowedDate = ''2024-06-30'',
      startDate = None, endDate = None\<rparr>"


section \<open>Theorems\<close>

lemma note_call_fields [simp]:
  "importStatus (note_call c st) = importStatus st"
  "sites (note_call c st) = sites st"
  "events_table (note_call c st) = events_table st"
  "calls (note_call c st) = calls st @ [c]"
  by (simp_all add: note_call_def)


subsection \<open>Server: request validation comes first\<close>

text \<open>
  C9. A submit-batch request whose \<^verbatim>\<open>events\<close> array has fewer than 1 or more than 10,000 rows
  gets the reply 400 "Validation error", and the state is returned as it was: the tables are
  unchanged and the call log has gained no entry, so no authorization check, no read of the
  import record and no write has happened. This holds for every environment and every state.
\<close>

theorem batch_size_out_of_range_rejected:
  assumes "length (req_events rq) < 1 \<or> 10000 < length (req_events rq)"
  shows "batchImportEvents env rq st = (error_reply 400 ''Validation error'', st)"
  using assms by (auto simp add: batchImportEvents_def batchImportRequestSchema_def)

theorem batch_size_out_of_range_rejected_witness:
  "length (req_events (scenario_request 0 1 [])) < 1 \<and>
   batchImportEvents (scenario_env True None) (scenario_request 0 1 [])
     (scenario_state (scenario_record Pending None 0) True) =
   (error_reply 400 ''Validation error'', scenario_state (scenario_record Pending None 0) True)"
  using batch_size_out_of_range_rejected
    [of "scenario_request 0 1 []" "scenario_env True None"
        "scenario_state (scenario_record Pending None 0) True"]
  by (simp add: scenario_request_def)


subsection \<open>Server: the paths through the handler\<close>

lemma set_platform_other:
  "k \<noteq> iid \<Longrightarrow> importStatus (set_platform iid p st) k = importStatus st k"
  by (auto simp add: set_platform_def split: option.splits)

lemma ingest_other_key:
  "k \<noteq> req_importId rq \<Longrightarrow> importStatus (snd (ingest env rq org st)) k = importStatus st k"
  by (simp add: ingest_def Let_def updateImportStatus_def updateImportProgress_def
      split: sum.split prod.split option.split bool.split)

lemma prepare_other_key:
  "k \<noteq> req_importId rq \<Longrightarrow> importStatus (snd (prepare env rq r st)) k = importStatus st k"
  by (simp add: prepare_def Let_def ingest_other_key set_platform_other updateImportStatus_def
      split: option.split)

lemma batchImportEvents_other_key:
  "k \<noteq> req_importId rq \<Longrightarrow> importStatus (snd (batchImportEvents env rq st)) k = importStatus st k"
  by (auto simp add: batchImportEvents_def Let_def getImportById_def prepare_other_key
      split: option.splits)

lemma batchImportEvents_admitted:
  assumes "batchImportRequestSchema env rq"
    and "getUserHasAdminAccessToSite env (req_site rq)"
    and "importStatus st (req_importId rq) = Some r"
    and "Number env (req_site rq) = Some (siteId r)"
    and "status r = Pending \<or> status r = Processing"
    and "sites st (siteId r) = Some org"
  shows "batchImportEvents env rq st =
         ingest env rq org
           (st\<lparr>importStatus := (importStatus st)(req_importId rq \<mapsto> prepared r),
               calls := calls st @ prepare_calls r\<rparr>)"
proof -
  have upd: "(importStatus st)(req_importId rq \<mapsto> r) = importStatus st"
    using assms(3) by (simp add: fun_upd_idem)
  from assms(5) show ?thesis
  proof
    assume pend: "status r = Pending"
    show ?thesis
      using assms(1-4,6) pend
      by (simp add: batchImportEvents_def Let_def getImportById_def prepare_def
          updateImportStatus_def set_platform_def prepared_def prepare_calls_def note_call_def)
  next
    assume proc: "status r = Processing"
    have "r\<lparr>status := status r\<rparr> = r" by simp
    then have r: "r\<lparr>status := Processing\<rparr> = r" using proc by simp
    show ?thesis
      using assms(1-4,6) proc upd
      by (simp add: batchImportEvents_def Let_def getImportById_def prepare_def
          updateImportStatus_def set_platform_def prepared_def prepare_calls_def note_call_def r)
  qed
qed

lemma ingest_create_fails:
  "quota_create env org = Inl t \<Longrightarrow>
   ingest env rq org st = (insert_failed_reply t, note_call CallQuotaCreate st)"
  by (simp add: ingest_def Let_def)

lemma ingest_all_dropped:
  assumes "quota_create env org = Inr q0"
    and "quota_loop (canImportEvent env) (req_events rq) q0 [] 0 = ([], skipped, q)"
    and "req_events rq \<noteq> []"
    and "importStatus st (req_importId rq) = Some r"
  shows "ingest env rq org st =
         (failure_reply 400 ''Quota exceeded''
            (quota_error_message (length (req_events rq)) (req_batchIndex rq) (getSummary env q)),
          if req_batchIndex rq = 0 \<or> req_totalBatches rq = 1
          then st\<lparr>importStatus := (importStatus st)(req_importId rq \<mapsto>
                     r\<lparr>status := Failed,
                       errorMessage := Some (quota_error_message (length (req_events rq))
                                              (req_batchIndex rq) (getSummary env q))\<rparr>),
                  calls := calls st @ [CallQuotaCreate, CallUpdateStatus Failed]\<rparr>
          else st\<lparr>calls := calls st @ [CallQuotaCreate]\<rparr>)"
  using assms by (simp add: ingest_def Let_def updateImportStatus_def note_call_def)

lemma ingest_no_valid_events:
  assumes "quota_create env org = Inr q0"
    and "quota_loop (canImportEvent env) (req_events rq) q0 [] 0 = (within, skipped, q)"
    and "within \<noteq> []"
    and "transform env within (req_site rq) (req_importId rq) = []"
  shows "ingest env rq org st =
         (success_reply 0
            (batch_label (req_batchIndex rq) (req_totalBatches rq) @ '': No valid events''),
          st\<lparr>calls := calls st @ [CallQuotaCreate]\<rparr>)"
  using assms by (simp add: ingest_def Let_def note_call_def)

lemma ingest_write_fails:
  assumes "quota_create env org = Inr q0"
    and "quota_loop (canImportEvent env) (req_events rq) q0 [] 0 = (within, skipped, q)"
    and "within \<noteq> []"
    and "transform env within (req_site rq) (req_importId rq) = rows"
    and "rows \<noteq> []"
    and "clickhouse_insert env rows = Some t"
  shows "ingest env rq org st =
         (insert_failed_reply t, st\<lparr>calls := calls st @ [CallQuotaCreate, CallInsert]\<rparr>)"
  using assms by (simp add: ingest_def Let_def note_call_def)

lemma ingest_written:
  assumes "quota_create env org = Inr q0"
    and "quota_loop (canImportEvent env) (req_events rq) q0 [] 0 = (within, skipped, q)"
    and "within \<noteq> []"
    and "transform env within (req_site rq) (req_importId rq) = rows"
    and "rows \<noteq> []"
    and "clickhouse_insert env rows = None"
    and "importStatus st (req_importId rq) = Some r"
  shows "ingest env rq org st =
         (success_reply (length rows)
            (batch_label (req_batchIndex rq) (req_totalBatches rq) @ '' imported successfully'' @
             (if skipped > 0
              then '' ('' @ string_of_nat skipped @ '' events skipped due to quota)'' else [])),
          st\<lparr>importStatus := (importStatus st)(req_importId rq \<mapsto>
                  r\<lparr>importedEvents := importedEvents r + length rows\<rparr>),
              events_table := events_table st @ rows,
              calls := calls st @ [CallQuotaCreate, CallInsert, CallUpdateProgress (length rows)]\<rparr>)"
  using assms by (simp add: ingest_def Let_def updateImportProgress_def note_call_def)

lemma prepared_fields [simp]:
  "status (prepared r) = Processing"
  "importedEvents (prepared r) = importedEvents r"
  "siteId (prepared r) = siteId r"
  "errorMessage (prepared r) = errorMessage r"
  "\<not> platform_unset (platform (prepared r))"
  by (simp_all add: prepared_def platform_unset_def split: option.splits)

lemma prepared_idem: "prepared (prepared r) = prepared r"
  by (simp add: prepared_def platform_unset_def split: option.splits)

lemma schema_events_nonempty: "batchImportRequestSchema env rq \<Longrightarrow> req_events rq \<noteq> []"
  by (auto simp add: batchImportRequestSchema_def)

lemma batchImportEvents_site_missing:
  assumes "batchImportRequestSchema env rq"
    and "getUserHasAdminAccessToSite env (req_site rq)"
    and "importStatus st (req_importId rq) = Some r"
    and "Number env (req_site rq) = Some (siteId r)"
    and "status r = Pending \<or> status r = Processing"
    and "sites st (siteId r) = None"
  shows "batchImportEvents env rq st =
         (error_reply 404 ''Site not found'',
          st\<lparr>importStatus := (importStatus st)(req_importId rq \<mapsto> prepared r),
             calls := calls st @ prepare_calls r\<rparr>)"
proof -
  have upd: "(importStatus st)(req_importId rq \<mapsto> r) = importStatus st"
    using assms(3) by (simp add: fun_upd_idem)
  from assms(5) show ?thesis
  proof
    assume pend: "status r = Pending"
    show ?thesis
      using assms(1-4,6) pend
      by (simp add: batchImportEvents_def Let_def getImportById_def prepare_def
          updateImportStatus_def set_platform_def prepared_def prepare_calls_def note_call_def)
  next
    assume proc: "status r = Processing"
    have "r\<lparr>status := status r\<rparr> = r" by simp
    then have r: "r\<lparr>status := Processing\<rparr> = r" using proc by simp
    show ?thesis
      using assms(1-4,6) proc upd
      by (simp add: batchImportEvents_def Let_def getImportById_def prepare_def
          updateImportStatus_def set_platform_def prepared_def prepare_calls_def note_call_def r)
  qed
qed

lemma batchImportEvents_not_admitted:
  assumes "importStatus st (req_importId rq) = Some r"
    and "\<not> (batchImportRequestSchema env rq \<and> getUserHasAdminAccessToSite env (req_site rq) \<and>
            Number env (req_site rq) = Some (siteId r))"
  shows "importStatus (snd (batchImportEvents env rq st)) = importStatus st"
  using assms by (auto simp add: batchImportEvents_def Let_def getImportById_def)

lemma ingest_status_after:
  assumes "importStatus st (req_importId rq) = Some r"
    and "status r = Processing"
    and "req_events rq \<noteq> []"
  shows "map_option status (importStatus (snd (ingest env rq org st)) (req_importId rq)) =
         Some (if (case quota_create env org of
                     Inl t \<Rightarrow> False
                   | Inr q0 \<Rightarrow>
                       fst (quota_loop (canImportEvent env) (req_events rq) q0 [] 0) = [] \<and>
                       (req_batchIndex rq = 0 \<or> req_totalBatches rq = 1))
               then Failed else Processing)"
  using assms
  by (simp add: ingest_def Let_def updateImportStatus_def updateImportProgress_def
      split: sum.split prod.split option.split)

lemma quota_error_message_capacity:
  "suffix (string_of_nat (monthsAtCapacity s) @ '' of '' @ string_of_nat (totalMonthsInWindow s) @
           '' months are at full capacity.'')
     (quota_error_message n b s)"
  unfolding quota_error_message_def
  by (intro suffix_appendI suffix_order.refl)

subsection \<open>Server: terminal imports\<close>

text \<open>
  C2. Once an import is \<open>completed\<close> or \<open>failed\<close>, a batch submission leaves its record as it
  is, whatever the request and the environment: the record under its id is the same
  afterwards. A submission addressed to that import is rejected (HTTP 400 or 403 with an
  \<^verbatim>\<open>error\<close> field, no \<^verbatim>\<open>success\<close> and no \<^verbatim>\<open>importedCount\<close>), and the whole \<^verbatim>\<open>importStatus\<close>
  table, the \<^verbatim>\<open>sites\<close> table and the event store are unchanged; so status and platform stay
  the same and \<open>importedEvents\<close> does not increase.
\<close>

theorem terminal_import_immutable:
  assumes "importStatus st k = Some r"
    and "status r = Completed \<or> status r = Failed"
  shows "importStatus (snd (batchImportEvents env rq st)) k = Some r \<and>
         (req_importId rq = k \<longrightarrow>
            http_status (fst (batchImportEvents env rq st)) \<in> {400, 403} \<and>
            error (fst (batchImportEvents env rq st)) \<noteq> None \<and>
            success (fst (batchImportEvents env rq st)) = None \<and>
            importedCount (fst (batchImportEvents env rq st)) = None \<and>
            importStatus (snd (batchImportEvents env rq st)) = importStatus st \<and>
            sites (snd (batchImportEvents env rq st)) = sites st \<and>
            events_table (snd (batchImportEvents env rq st)) = events_table st)"
proof (cases "req_importId rq = k")
  case True
  with assms show ?thesis
    by (auto simp add: batchImportEvents_def Let_def getImportById_def error_reply_def)
next
  case False
  with assms batchImportEvents_other_key [of k rq env st] show ?thesis by simp
qed


theorem terminal_import_immutable_witness:
  "importStatus (scenario_state (scenario_record Completed (Some ''umami'') 100) True)
     scenario_importId = Some (scenario_record Completed (Some ''umami'') 100) \<and>
   (status (scenario_record Completed (Some ''umami'') 100) = Completed \<or>
    status (scenario_record Completed (Some ''umami'') 100) = Failed) \<and>
   req_importId (scenario_request 1 2 [row_at ''2024-03-15 10:00:00'']) = scenario_importId \<and>
   importStatus (snd (batchImportEvents (scenario_env True None)
        (scenario_request 1 2 [row_at ''2024-03-15 10:00:00''])
        (scenario_state (scenario_record Completed (Some ''umami'') 100) True))) =
     importStatus (scenario_state (scenario_record Completed (Some ''umami'') 100) True) \<and>
   http_status (fst (batchImportEvents (scenario_env True None)
        (scenario_request 1 2 [row_at ''2024-03-15 10:00:00''])
        (scenario_state (scenario_record Completed (Some ''umami'') 100) True))) \<in> {400, 403}"
proof -
  let ?R = "scenario_record Completed (Some ''umami'') 100"
  let ?S = "scenario_state ?R True"
  let ?Q = "scenario_request 1 2 [row_at ''2024-03-15 10:00:00'']"
  have h1: "importStatus ?S scenario_importId = Some ?R"
    by (simp add: scenario_state_def)
  have h2: "status ?R = Completed \<or> status ?R = Failed"
    by (simp add: scenario_record_def)
  have h3: "req_importId ?Q = scenario_importId"
    by (simp add: scenario_request_def)
  from terminal_import_immutable [OF h1 h2, of "scenario_env True None" ?Q] h1 h2 h3
  show ?thesis by blast
qed

subsection \<open>Server: a failed write\<close>

text \<open>
  C3. When the bulk write to the event store fails (the request having reached the write:
  valid, authorized, import found on the right site and not terminal, site found, tracker
  created, at least one row within quota and at least one transformed row), the reply is the
  batch-level failure (500, \<^verbatim>\<open>success: false\<close>, "Failed to insert events" with the error's
  message), the import's status is \<open>processing\<close>, its \<open>importedEvents\<close> is what it was, and
  the event store is unchanged. Submitting the same batch again to the resulting state, with
  a write that succeeds and everything else as before, succeeds: \<^verbatim>\<open>success: true\<close>,
  \<^verbatim>\<open>importedCount\<close> the number of transformed rows, \<open>importedEvents\<close> increased by that
  number, the rows appended to the event store, the status still \<open>processing\<close>.
\<close>

theorem write_failure_leaves_import_processing:
  assumes "batchImportRequestSchema env rq"
    and "getUserHasAdminAccessToSite env (req_site rq)"
    and "importStatus st (req_importId rq) = Some r"
    and "Number env (req_site rq) = Some (siteId r)"
    and "status r = Pending \<or> status r = Processing"
    and "sites st (siteId r) = Some org"
    and "quota_create env org = Inr q0"
    and "quota_loop (canImportEvent env) (req_events rq) q0 [] 0 = (within, skipped, q)"
    and "within \<noteq> []"
    and "transform env within (req_site rq) (req_importId rq) = rows"
    and "rows \<noteq> []"
    and "clickhouse_insert env rows = Some t"
  shows "fst (batchImportEvents env rq st) =
           failure_reply 500 ''Failed to insert events'' (thrown_message t) \<and>
         map_option status (importStatus (snd (batchImportEvents env rq st)) (req_importId rq)) =
           Some Processing \<and>
         map_option importedEvents
             (importStatus (snd (batchImportEvents env rq st)) (req_importId rq)) =
           Some (importedEvents r) \<and>
         events_table (snd (batchImportEvents env rq st)) = events_table st \<and>
         success (fst (batchImportEvents (env\<lparr>clickhouse_insert := (\<lambda>rows. None)\<rparr>) rq
                    (snd (batchImportEvents env rq st)))) = Some True \<and>
         importedCount (fst (batchImportEvents (env\<lparr>clickhouse_insert := (\<lambda>rows. None)\<rparr>) rq
                    (snd (batchImportEvents env rq st)))) = Some (length rows) \<and>
         map_option importedEvents
             (importStatus (snd (batchImportEvents (env\<lparr>clickhouse_insert := (\<lambda>rows. None)\<rparr>) rq
                    (snd (batchImportEvents env rq st)))) (req_importId rq)) =
           Some (importedEvents r + length rows) \<and>
         map_option status
             (importStatus (snd (batchImportEvents (env\<lparr>clickhouse_insert := (\<lambda>rows. None)\<rparr>) rq
                    (snd (batchImportEvents env rq st)))) (req_importId rq)) =
           Some Processing \<and>
         events_table (snd (batchImportEvents (env\<lparr>clickhouse_insert := (\<lambda>rows. None)\<rparr>) rq
                    (snd (batchImportEvents env rq st)))) = events_table st @ rows"
proof -
  define env' where "env' = env\<lparr>clickhouse_insert := (\<lambda>rows. None)\<rparr>"
  define st1 where "st1 = st\<lparr>importStatus := (importStatus st)(req_importId rq \<mapsto> prepared r),
                 calls := calls st @ prepare_calls r\<rparr>"
  define st2 where "st2 = st1\<lparr>calls := calls st1 @ [CallQuotaCreate, CallInsert]\<rparr>"
  define st3 where "st3 = st2\<lparr>importStatus := (importStatus st2)(req_importId rq \<mapsto> prepared (prepared r)),
                      calls := calls st2 @ prepare_calls (prepared r)\<rparr>"
  have first: "batchImportEvents env rq st = (insert_failed_reply t, st2)"
    using batchImportEvents_admitted [OF assms(1-6)]
      ingest_write_fails [OF assms(7-12), of st1] by (simp add: st1_def st2_def)
  have st2: "importStatus st2 (req_importId rq) = Some (prepared r)"
    "sites st2 = sites st" "events_table st2 = events_table st"
    by (simp_all add: st1_def st2_def)
  have schema: "batchImportRequestSchema env' rq"
    using assms(1) by (simp add: batchImportRequestSchema_def env'_def)
  have again: "batchImportEvents env' rq st2 = ingest env' rq org st3"
    unfolding st3_def
    by (rule batchImportEvents_admitted [OF schema])
      (use assms(2,4,6) st2 in \<open>simp_all add: env'_def\<close>)
  have st3: "importStatus st3 (req_importId rq) = Some (prepared r)"
    "events_table st3 = events_table st"
    using st2 by (simp_all add: st3_def prepared_idem)
  have written: "ingest env' rq org st3 =
         (success_reply (length rows)
            (batch_label (req_batchIndex rq) (req_totalBatches rq) @ '' imported successfully'' @
             (if skipped > 0
              then '' ('' @ string_of_nat skipped @ '' events skipped due to quota)'' else [])),
          st3\<lparr>importStatus := (importStatus st3)(req_importId rq \<mapsto>
                  (prepared r)\<lparr>importedEvents := importedEvents (prepared r) + length rows\<rparr>),
              events_table := events_table st3 @ rows,
              calls := calls st3 @ [CallQuotaCreate, CallInsert, CallUpdateProgress (length rows)]\<rparr>)"
    by (rule ingest_written [where ?q0.0 = q0 and within = within and q = q])
      (use assms(7-11) st3 in \<open>simp_all add: env'_def\<close>)
  show ?thesis
    unfolding env'_def [symmetric] first snd_conv fst_conv again written
    using st2 st3
    by (simp add: insert_failed_reply_def success_reply_def)
qed

theorem write_failure_leaves_import_processing_witness:
  "batchImportRequestSchema (scenario_env True (Some (Error ''socket hang up'')))
     (scenario_request 1 2 [row_at ''2024-03-15 10:00:00'']) \<and>
   clickhouse_insert (scenario_env True (Some (Error ''socket hang up'')))
     [row_at ''2024-03-15 10:00:00''] = Some (Error ''socket hang up'') \<and>
   fst (batchImportEvents (scenario_env True (Some (Error ''socket hang up'')))
          (scenario_request 1 2 [row_at ''2024-03-15 10:00:00''])
          (scenario_state (scenario_record Processing (Some ''umami'') 100) True)) =
     failure_reply 500 ''Failed to insert events'' ''socket hang up'' \<and>
   map_option status
     (importStatus (snd (batchImportEvents (scenario_env True (Some (Error ''socket hang up'')))
          (scenario_request 1 2 [row_at ''2024-03-15 10:00:00''])
          (scenario_state (scenario_record Processing (Some ''umami'') 100) True)))
        scenario_importId) = Some Processing \<and>
   map_option importedEvents
     (importStatus (snd (batchImportEvents (scenario_env True (Some (Error ''socket hang up'')))
          (scenario_request 1 2 [row_at ''2024-03-15 10:00:00''])
          (scenario_state (scenario_record Processing (Some ''umami'') 100) True)))
        scenario_importId) = Some 100"
proof -
  let ?E = "scenario_env True (Some (Error ''socket hang up''))"
  let ?Q = "scenario_request 1 2 [row_at ''2024-03-15 10:00:00'']"
  let ?R = "scenario_record Processing (Some ''umami'') 100"
  let ?S = "scenario_state ?R True"
  have h1: "batchImportRequestSchema ?E ?Q"
    by (simp add: batchImportRequestSchema_def scenario_env_def scenario_request_def
        scenario_importId_def)
  have h2: "getUserHasAdminAccessToSite ?E (req_site ?Q)"
    by (simp add: scenario_env_def)
  have h3: "importStatus ?S (req_importId ?Q) = Some ?R"
    by (simp add: scenario_state_def scenario_request_def)
  have h4: "Number ?E (req_site ?Q) = Some (siteId ?R)"
    by (simp add: scenario_env_def scenario_request_def scenario_record_def)
  have h5: "status ?R = Pending \<or> status ?R = Processing"
    by (simp add: scenario_record_def)
  have h6: "sites ?S (siteId ?R) = Some ''org1''"
    by (simp add: scenario_state_def scenario_record_def)
  have h7: "quota_create ?E ''org1'' = Inr ()"
    by (simp add: scenario_env_def)
  have h8: "quota_loop (canImportEvent ?E) (req_events ?Q) () [] 0 =
            ([row_at ''2024-03-15 10:00:00''], 0, ())"
    by (simp add: scenario_env_def scenario_request_def row_at_def)
  have h9: "[row_at ''2024-03-15 10:00:00''] \<noteq> []" by simp
  have h10: "transform ?E [row_at ''2024-03-15 10:00:00''] (req_site ?Q) (req_importId ?Q) =
             [row_at ''2024-03-15 10:00:00'']"
    by (simp add: scenario_env_def)
  have h12: "clickhouse_insert ?E [row_at ''2024-03-15 10:00:00''] = Some (Error ''socket hang up'')"
    by (simp add: scenario_env_def)
  have l: "req_importId ?Q = scenario_importId" "importedEvents ?R = 100"
    "thrown_message (Error ''socket hang up'') = ''socket hang up''"
    by (simp_all add: scenario_request_def scenario_record_def thrown_message_def)
  from write_failure_leaves_import_processing [OF h1 h2 h3 h4 h5 h6 h7 h8 h9 h10 h9 h12]
  show ?thesis
    unfolding l using h1 h12 by blast
qed

subsection \<open>Server: when an import becomes failed\<close>

text \<open>
  C4. For an import that is \<open>pending\<close> or \<open>processing\<close>, the status after a batch submission
  is \<open>failed\<close> exactly when the submission gets to the quota re-filter (valid request,
  authorized, right site, site row found, tracker created), the re-filter keeps no row of the
  batch, and the batch index is 0 or the total number of batches is 1. In that case the
  reply is the quota-exceeded error (400, \<^verbatim>\<open>success: false\<close>, \<^verbatim>\<open>error: "Quota exceeded"\<close>), its
  message is the one stored as the import's error message, and that message ends with the
  tracker's capacity summary, "\<open>k\<close> of \<open>n\<close> months are at full capacity."
\<close>

theorem import_fails_exactly_on_unimportable_first_batch:
  assumes "importStatus st (req_importId rq) = Some r"
    and "status r = Pending \<or> status r = Processing"
  shows "((map_option status (importStatus (snd (batchImportEvents env rq st)) (req_importId rq)) =
            Some Failed) =
          (batchImportRequestSchema env rq \<and> getUserHasAdminAccessToSite env (req_site rq) \<and>
           Number env (req_site rq) = Some (siteId r) \<and>
           (case sites st (siteId r) of
              None \<Rightarrow> False
            | Some org \<Rightarrow>
                (case quota_create env org of
                   Inl t \<Rightarrow> False
                 | Inr q0 \<Rightarrow>
                     fst (quota_loop (canImportEvent env) (req_events rq) q0 [] 0) = [] \<and>
                     (req_batchIndex rq = 0 \<or> req_totalBatches rq = 1))))) \<and>
         (sites st (siteId r) = Some org \<and> quota_create env org = Inr q0 \<and>
          map_option status (importStatus (snd (batchImportEvents env rq st)) (req_importId rq)) =
            Some Failed \<longrightarrow>
          fst (batchImportEvents env rq st) =
            failure_reply 400 ''Quota exceeded''
              (quota_error_message (length (req_events rq)) (req_batchIndex rq)
                 (getSummary env (snd (snd (quota_loop (canImportEvent env) (req_events rq) q0 [] 0))))) \<and>
          map_option errorMessage
              (importStatus (snd (batchImportEvents env rq st)) (req_importId rq)) =
            Some (Some (quota_error_message (length (req_events rq)) (req_batchIndex rq)
                 (getSummary env (snd (snd (quota_loop (canImportEvent env) (req_events rq) q0 [] 0)))))) \<and>
          suffix
            (string_of_nat (monthsAtCapacity
                 (getSummary env (snd (snd (quota_loop (canImportEvent env) (req_events rq) q0 [] 0))))) @
             '' of '' @
             string_of_nat (totalMonthsInWindow
                 (getSummary env (snd (snd (quota_loop (canImportEvent env) (req_events rq) q0 [] 0))))) @
             '' months are at full capacity.'')
            (quota_error_message (length (req_events rq)) (req_batchIndex rq)
                 (getSummary env (snd (snd (quota_loop (canImportEvent env) (req_events rq) q0 [] 0))))))"
proof -
  let ?after = "map_option status
                  (importStatus (snd (batchImportEvents env rq st)) (req_importId rq))"
  let ?adm = "batchImportRequestSchema env rq \<and> getUserHasAdminAccessToSite env (req_site rq) \<and>
              Number env (req_site rq) = Some (siteId r)"
  have not_failed: "status r \<noteq> Failed" using assms(2) by auto
  have iff: "(?after = Some Failed) =
          (?adm \<and>
           (case sites st (siteId r) of
              None \<Rightarrow> False
            | Some org \<Rightarrow>
                (case quota_create env org of
                   Inl t \<Rightarrow> False
                 | Inr q0 \<Rightarrow>
                     fst (quota_loop (canImportEvent env) (req_events rq) q0 [] 0) = [] \<and>
                     (req_batchIndex rq = 0 \<or> req_totalBatches rq = 1))))"
  proof (cases ?adm)
    case False
    then have "importStatus (snd (batchImportEvents env rq st)) = importStatus st"
      using batchImportEvents_not_admitted [OF assms(1)] by blast
    then show ?thesis using False assms(1) not_failed by auto
  next
    case adm: True
    show ?thesis
    proof (cases "sites st (siteId r)")
      case None
      have "batchImportEvents env rq st =
         (error_reply 404 ''Site not found'',
          st\<lparr>importStatus := (importStatus st)(req_importId rq \<mapsto> prepared r),
             calls := calls st @ prepare_calls r\<rparr>)"
        by (rule batchImportEvents_site_missing) (use adm assms None in simp_all)
      then show ?thesis using None by simp
    next
      case (Some org')
      define st1 where "st1 = st\<lparr>importStatus := (importStatus st)(req_importId rq \<mapsto> prepared r),
               calls := calls st @ prepare_calls r\<rparr>"
      have run: "batchImportEvents env rq st = ingest env rq org' st1"
        unfolding st1_def
        by (rule batchImportEvents_admitted) (use adm assms Some in simp_all)
      have st1: "importStatus st1 (req_importId rq) = Some (prepared r)"
        by (simp add: st1_def)
      have ne: "req_events rq \<noteq> []" using adm schema_events_nonempty by blast
      let ?C = "case quota_create env org' of
                  Inl t \<Rightarrow> False
                | Inr q0 \<Rightarrow>
                    fst (quota_loop (canImportEvent env) (req_events rq) q0 [] 0) = [] \<and>
                    (req_batchIndex rq = 0 \<or> req_totalBatches rq = 1)"
      have eq: "map_option status (importStatus (snd (ingest env rq org' st1)) (req_importId rq)) =
                Some (if ?C then Failed else Processing)"
        by (rule ingest_status_after [OF st1 _ ne]) simp
      have "(map_option status (importStatus (snd (ingest env rq org' st1)) (req_importId rq)) =
               Some Failed) = ?C"
        unfolding eq by simp
      then show ?thesis
        unfolding run using adm Some by simp
    qed
  qed
  have msg: "fst (batchImportEvents env rq st) =
            failure_reply 400 ''Quota exceeded''
              (quota_error_message (length (req_events rq)) (req_batchIndex rq)
                 (getSummary env (snd (snd (quota_loop (canImportEvent env) (req_events rq) q0 [] 0))))) \<and>
          map_option errorMessage
              (importStatus (snd (batchImportEvents env rq st)) (req_importId rq)) =
            Some (Some (quota_error_message (length (req_events rq)) (req_batchIndex rq)
                 (getSummary env (snd (snd (quota_loop (canImportEvent env) (req_events rq) q0 [] 0))))))"
    if site: "sites st (siteId r) = Some org" and create: "quota_create env org = Inr q0"
      and failed: "?after = Some Failed"
  proof -
    from failed iff site create
    have adm: ?adm
      and dropped: "fst (quota_loop (canImportEvent env) (req_events rq) q0 [] 0) = []"
      and first: "req_batchIndex rq = 0 \<or> req_totalBatches rq = 1"
      by simp_all
    define st1 where "st1 = st\<lparr>importStatus := (importStatus st)(req_importId rq \<mapsto> prepared r),
               calls := calls st @ prepare_calls r\<rparr>"
    have run: "batchImportEvents env rq st = ingest env rq org st1"
      unfolding st1_def
      by (rule batchImportEvents_admitted) (use adm assms site in simp_all)
    have st1: "importStatus st1 (req_importId rq) = Some (prepared r)"
      by (simp add: st1_def)
    have ne: "req_events rq \<noteq> []" using adm schema_events_nonempty by blast
    obtain skipped q where
      loop: "quota_loop (canImportEvent env) (req_events rq) q0 [] 0 = ([], skipped, q)"
      using dropped by (cases "quota_loop (canImportEvent env) (req_events rq) q0 [] 0") auto
    show ?thesis
      unfolding run ingest_all_dropped [OF create loop ne st1] loop
      using first by simp
  qed
  show ?thesis
    using iff msg quota_error_message_capacity by blast
qed

theorem import_fails_exactly_on_unimportable_first_batch_witness:
  "importStatus (scenario_state (scenario_record Pending None 0) True)
     (req_importId (scenario_request 0 1 [row_at ''2024-03-15 10:00:00''])) =
     Some (scenario_record Pending None 0) \<and>
   status (scenario_record Pending None 0) = Pending \<and>
   sites (scenario_state (scenario_record Pending None 0) True)
     (siteId (scenario_record Pending None 0)) = Some ''org1'' \<and>
   quota_create (scenario_env False None) ''org1'' = Inr () \<and>
   fst (quota_loop (canImportEvent (scenario_env False None))
          (req_events (scenario_request 0 1 [row_at ''2024-03-15 10:00:00''])) () [] 0) = [] \<and>
   req_totalBatches (scenario_request 0 1 [row_at ''2024-03-15 10:00:00'']) = 1 \<and>
   map_option status
     (importStatus (snd (batchImportEvents (scenario_env False None)
          (scenario_request 0 1 [row_at ''2024-03-15 10:00:00''])
          (scenario_state (scenario_record Pending None 0) True)))
        (req_importId (scenario_request 0 1 [row_at ''2024-03-15 10:00:00'']))) = Some Failed \<and>
   fst (batchImportEvents (scenario_env False None)
          (scenario_request 0 1 [row_at ''2024-03-15 10:00:00''])
          (scenario_state (scenario_record Pending None 0) True)) =
     failure_reply 400 ''Quota exceeded''
       (quota_error_message 1 0
          \<lparr>oldestAllowedMonth = ''202401'', totalMonthsInWindow = 6, monthsAtCapacity = 6\<rparr>)"
proof -
  let ?E = "scenario_env False None"
  let ?Q = "scenario_request 0 1 [row_at ''2024-03-15 10:00:00'']"
  let ?R = "scenario_record Pending None 0"
  let ?S = "scenario_state ?R True"
  have h1: "batchImportRequestSchema ?E ?Q"
    by (simp add: batchImportRequestSchema_def scenario_env_def scenario_request_def
        scenario_importId_def)
  have h2: "getUserHasAdminAccessToSite ?E (req_site ?Q)"
    by (simp add: scenario_env_def)
  have h3: "importStatus ?S (req_importId ?Q) = Some ?R"
    by (simp add: scenario_state_def scenario_request_def)
  have h4: "Number ?E (req_site ?Q) = Some (siteId ?R)"
    by (simp add: scenario_env_def scenario_request_def scenario_record_def)
  have h5: "status ?R = Pending"
    by (simp add: scenario_record_def)
  have h5': "status ?R = Pending \<or> status ?R = Processing"
    using h5 by simp
  have h6: "sites ?S (siteId ?R) = Some ''org1''"
    by (simp add: scenario_state_def scenario_record_def)
  have h7: "quota_create ?E ''org1'' = Inr ()"
    by (simp add: scenario_env_def)
  have h8: "quota_loop (canImportEvent ?E) (req_events ?Q) () [] 0 = ([], 1, ())"
    by (simp add: scenario_env_def scenario_request_def row_at_def)
  have h9: "req_totalBatches ?Q = 1" "req_batchIndex ?Q = 0" "length (req_events ?Q) = 1"
    by (simp_all add: scenario_request_def)
  have s: "getSummary ?E () =
      \<lparr>oldestAllowedMonth = ''202401'', totalMonthsInWindow = 6, monthsAtCapacity = 6\<rparr>"
    by (simp add: scenario_env_def)
  note T = import_fails_exactly_on_unimportable_first_batch [OF h3 h5', of ?E "''org1''" "()"]
  have failed: "map_option status
     (importStatus (snd (batchImportEvents ?E ?Q ?S)) (req_importId ?Q)) = Some Failed"
    using T h1 h2 h4 h6 h7 h8 h9 by simp
  have "fst (batchImportEvents ?E ?Q ?S) =
     failure_reply 400 ''Quota exceeded''
       (quota_error_message 1 0
          \<lparr>oldestAllowedMonth = ''202401'', totalMonthsInWindow = 6, monthsAtCapacity = 6\<rparr>)"
    using T failed h6 h7 unfolding h8 h9 by (simp add: s)
  then show ?thesis
    using failed h3 h5 h6 h7 h8 h9 by simp
qed

subsection \<open>Server: a later batch that the quota re-filter empties\<close>

text \<open>
  C1 (as amended). When the quota re-filter keeps no row of a batch that is neither batch 0
  nor the only batch, the reply is the quota-exceeded failure (400, \<^verbatim>\<open>success: false\<close>,
  \<^verbatim>\<open>error: "Quota exceeded"\<close>) and not a success; the import is not failed: its status is
  \<open>processing\<close>, its \<open>importedEvents\<close> and error message are what they were, and nothing is
  written to the event store.
\<close>

theorem later_batch_all_dropped_is_quota_failure:
  assumes "batchImportRequestSchema env rq"
    and "getUserHasAdminAccessToSite env (req_site rq)"
    and "importStatus st (req_importId rq) = Some r"
    and "Number env (req_site rq) = Some (siteId r)"
    and "status r = Pending \<or> status r = Processing"
    and "sites st (siteId r) = Some org"
    and "quota_create env org = Inr q0"
    and "quota_loop (canImportEvent env) (req_events rq) q0 [] 0 = ([], skipped, q)"
    and "req_batchIndex rq \<noteq> 0"
    and "req_totalBatches rq \<noteq> 1"
  shows "fst (batchImportEvents env rq st) =
           failure_reply 400 ''Quota exceeded''
             (quota_error_message (length (req_events rq)) (req_batchIndex rq) (getSummary env q)) \<and>
         map_option status (importStatus (snd (batchImportEvents env rq st)) (req_importId rq)) =
           Some Processing \<and>
         map_option importedEvents
             (importStatus (snd (batchImportEvents env rq st)) (req_importId rq)) =
           Some (importedEvents r) \<and>
         map_option errorMessage
             (importStatus (snd (batchImportEvents env rq st)) (req_importId rq)) =
           Some (errorMessage r) \<and>
         events_table (snd (batchImportEvents env rq st)) = events_table st"
proof -
  define st1 where "st1 = st\<lparr>importStatus := (importStatus st)(req_importId rq \<mapsto> prepared r),
               calls := calls st @ prepare_calls r\<rparr>"
  have run: "batchImportEvents env rq st = ingest env rq org st1"
    unfolding st1_def by (rule batchImportEvents_admitted [OF assms(1-6)])
  have st1: "importStatus st1 (req_importId rq) = Some (prepared r)"
    "events_table st1 = events_table st"
    by (simp_all add: st1_def)
  have ne: "req_events rq \<noteq> []" using assms(1) by (rule schema_events_nonempty)
  show ?thesis
    unfolding run ingest_all_dropped [OF assms(7,8) ne st1(1)]
    using assms(9,10) st1 by simp
qed

theorem later_batch_all_dropped_is_quota_failure_witness:
  "batchImportRequestSchema (scenario_env False None)
     (scenario_request 1 2 [row_at ''2024-03-15 10:00:00'']) \<and>
   quota_loop (canImportEvent (scenario_env False None))
     (req_events (scenario_request 1 2 [row_at ''2024-03-15 10:00:00''])) () [] 0 = ([], 1, ()) \<and>
   req_batchIndex (scenario_request 1 2 [row_at ''2024-03-15 10:00:00'']) \<noteq> 0 \<and>
   req_totalBatches (scenario_request 1 2 [row_at ''2024-03-15 10:00:00'']) \<noteq> 1 \<and>
   fst (batchImportEvents (scenario_env False None)
          (scenario_request 1 2 [row_at ''2024-03-15 10:00:00''])
          (scenario_state (scenario_record Processing (Some ''umami'') 100) True)) =
     failure_reply 400 ''Quota exceeded''
       (quota_error_message 1 1
          \<lparr>oldestAllowedMonth = ''202401'', totalMonthsInWindow = 6, monthsAtCapacity = 6\<rparr>) \<and>
   map_option status
     (importStatus (snd (batchImportEvents (scenario_env False None)
          (scenario_request 1 2 [row_at ''2024-03-15 10:00:00''])
          (scenario_state (scenario_record Processing (Some ''umami'') 100) True)))
        scenario_importId) = Some Processing"
proof -
  let ?E = "scenario_env False None"
  let ?Q = "scenario_request 1 2 [row_at ''2024-03-15 10:00:00'']"
  let ?R = "scenario_record Processing (Some ''umami'') 100"
  let ?S = "scenario_state ?R True"
  have h1: "batchImportRequestSchema ?E ?Q"
    by (simp add: batchImportRequestSchema_def scenario_env_def scenario_request_def
        scenario_importId_def)
  have h2: "getUserHasAdminAccessToSite ?E (req_site ?Q)"
    by (simp add: scenario_env_def)
  have h3: "importStatus ?S (req_importId ?Q) = Some ?R"
    by (simp add: scenario_state_def scenario_request_def)
  have h4: "Number ?E (req_site ?Q) = Some (siteId ?R)"
    by (simp add: scenario_env_def scenario_request_def scenario_record_def)
  have h5: "status ?R = Pending \<or> status ?R = Processing"
    by (simp add: scenario_record_def)
  have h6: "sites ?S (siteId ?R) = Some ''org1''"
    by (simp add: scenario_state_def scenario_record_def)
  have h7: "quota_create ?E ''org1'' = Inr ()"
    by (simp add: scenario_env_def)
  have h8: "quota_loop (canImportEvent ?E) (req_events ?Q) () [] 0 = ([], 1, ())"
    by (simp add: scenario_env_def scenario_request_def row_at_def)
  have h9: "req_batchIndex ?Q \<noteq> 0" and h10: "req_totalBatches ?Q \<noteq> 1"
    by (simp_all add: scenario_request_def)
  have s: "getSummary ?E () =
      \<lparr>oldestAllowedMonth = ''202401'', totalMonthsInWindow = 6, monthsAtCapacity = 6\<rparr>"
    by (simp add: scenario_env_def)
  have l: "length (req_events ?Q) = 1" "req_batchIndex ?Q = 1" "req_importId ?Q = scenario_importId"
    by (simp_all add: scenario_request_def)
  from later_batch_all_dropped_is_quota_failure [OF h1 h2 h3 h4 h5 h6 h7 h8 h9 h10]
  show ?thesis
    unfolding s l using h1 h8 h9 h10 unfolding l by blast
qed

text \<open>
  C1 as stated fails: batch 1 of 2, one row, every month at capacity. The re-filter keeps
  nothing, and the reply is 400 with \<^verbatim>\<open>success: false\<close> and no \<^verbatim>\<open>importedCount\<close>, where the
  claim promises a success with \<^verbatim>\<open>importedCount\<close> 0.
\<close>

theorem later_batch_all_dropped_not_a_success:
  "fst (quota_loop (canImportEvent (scenario_env False None))
     (req_events (scenario_request 1 2 [row_at ''2024-03-15 10:00:00''])) () [] 0) = [] \<and>
   req_batchIndex (scenario_request 1 2 [row_at ''2024-03-15 10:00:00'']) \<noteq> 0 \<and>
   req_totalBatches (scenario_request 1 2 [row_at ''2024-03-15 10:00:00'']) \<noteq> 1 \<and>
   http_status (fst (batchImportEvents (scenario_env False None)
          (scenario_request 1 2 [row_at ''2024-03-15 10:00:00''])
          (scenario_state (scenario_record Processing (Some ''umami'') 100) True))) = 400 \<and>
   success (fst (batchImportEvents (scenario_env False None)
          (scenario_request 1 2 [row_at ''2024-03-15 10:00:00''])
          (scenario_state (scenario_record Processing (Some ''umami'') 100) True))) = Some False \<and>
   error (fst (batchImportEvents (scenario_env False None)
          (scenario_request 1 2 [row_at ''2024-03-15 10:00:00''])
          (scenario_state (scenario_record Processing (Some ''umami'') 100) True))) =
     Some ''Quota exceeded'' \<and>
   importedCount (fst (batchImportEvents (scenario_env False None)
          (scenario_request 1 2 [row_at ''2024-03-15 10:00:00''])
          (scenario_state (scenario_record Processing (Some ''umami'') 100) True))) \<noteq> Some 0"
  by (simp add: batchImportEvents_def batchImportRequestSchema_def getImportById_def prepare_def
      ingest_def Let_def platform_unset_def failure_reply_def
      scenario_env_def scenario_request_def scenario_state_def scenario_record_def
      scenario_importId_def row_at_def)

subsection \<open>Server: the site lookup comes after the first writes\<close>

text \<open>
  C10. When the request is valid and authorized, the import record exists, belongs to the
  requested site and is \<open>pending\<close> or \<open>processing\<close>, but the \<^verbatim>\<open>sites\<close> table has no row for the
  site, the reply is 404 "Site not found", and by then the record has status \<open>processing\<close>
  and, if its platform was unset, platform \<^verbatim>\<open>umami\<close>. The call log shows the status update
  and the platform update before the site lookup. If the import was \<open>pending\<close> or its
  platform was unset, the \<^verbatim>\<open>importStatus\<close> table after the rejection differs from the one
  before: the rejection is not free of state changes.
\<close>

theorem site_not_found_after_state_changes:
  assumes "batchImportRequestSchema env rq"
    and "getUserHasAdminAccessToSite env (req_site rq)"
    and "importStatus st (req_importId rq) = Some r"
    and "Number env (req_site rq) = Some (siteId r)"
    and "status r = Pending \<or> status r = Processing"
    and "sites st (siteId r) = None"
  shows "fst (batchImportEvents env rq st) = error_reply 404 ''Site not found'' \<and>
         importStatus (snd (batchImportEvents env rq st)) =
           (importStatus st)(req_importId rq \<mapsto>
              r\<lparr>status := Processing,
                platform := (if platform_unset (platform r) then Some ''umami'' else platform r)\<rparr>) \<and>
         sites (snd (batchImportEvents env rq st)) = sites st \<and>
         events_table (snd (batchImportEvents env rq st)) = events_table st \<and>
         calls (snd (batchImportEvents env rq st)) =
           calls st @ [CallAuth, CallGetImport] @
           (if status r = Pending then [CallUpdateStatus Processing] else []) @
           (if platform_unset (platform r) then [CallSetPlatform] else []) @ [CallSelectSite] \<and>
         (status r = Pending \<or> platform_unset (platform r) \<longrightarrow>
            importStatus (snd (batchImportEvents env rq st)) \<noteq> importStatus st)"
proof -
  have same: "r\<lparr>status := status r\<rparr> = r" by simp
  have upd: "(importStatus st)(req_importId rq \<mapsto> r) = importStatus st"
    using assms(3) by (simp add: fun_upd_idem)
  have neq: "\<And>r'. r' \<noteq> r \<Longrightarrow> (importStatus st)(req_importId rq \<mapsto> r') \<noteq> importStatus st"
    using assms(3) by (metis fun_upd_same option.inject)
  have p: "platform_unset (platform r) \<Longrightarrow> r\<lparr>platform := Some ''umami''\<rparr> \<noteq> r"
    by (cases r) (auto simp add: platform_unset_def split: option.splits)
  have p': "platform_unset (platform r) \<Longrightarrow> r\<lparr>status := Processing, platform := Some ''umami''\<rparr> \<noteq> r"
    by (cases r) (auto simp add: platform_unset_def split: option.splits)
  have s: "status r = Pending \<Longrightarrow> r\<lparr>status := Processing, platform := x\<rparr> \<noteq> r" for x
    by (cases r) auto
  have s': "status r = Pending \<Longrightarrow> r\<lparr>status := Processing\<rparr> \<noteq> r"
    by (cases r) auto
  from assms(5) show ?thesis
  proof
    assume pend: "status r = Pending"
    show ?thesis
      using assms(1-4,6) pend s s' neq p'
      by (simp add: batchImportEvents_def Let_def getImportById_def prepare_def
          updateImportStatus_def set_platform_def)
  next
    assume proc: "status r = Processing"
    have r: "r\<lparr>status := Processing\<rparr> = r" using proc same by simp
    show ?thesis
      using assms(1-4,6) proc upd neq p'
      by (simp add: batchImportEvents_def Let_def getImportById_def prepare_def
          updateImportStatus_def set_platform_def r)
  qed
qed

theorem site_not_found_after_state_changes_witness:
  "batchImportRequestSchema (scenario_env True None)
     (scenario_request 0 2 [row_at ''2024-03-15 10:00:00'']) \<and>
   getUserHasAdminAccessToSite (scenario_env True None)
     (req_site (scenario_request 0 2 [row_at ''2024-03-15 10:00:00''])) \<and>
   importStatus (scenario_state (scenario_record Pending None 0) False)
     (req_importId (scenario_request 0 2 [row_at ''2024-03-15 10:00:00''])) =
     Some (scenario_record Pending None 0) \<and>
   Number (scenario_env True None) (req_site (scenario_request 0 2 [row_at ''2024-03-15 10:00:00''])) =
     Some (siteId (scenario_record Pending None 0)) \<and>
   status (scenario_record Pending None 0) = Pending \<and>
   platform_unset (platform (scenario_record Pending None 0)) \<and>
   sites (scenario_state (scenario_record Pending None 0) False)
     (siteId (scenario_record Pending None 0)) = None \<and>
   fst (batchImportEvents (scenario_env True None)
          (scenario_request 0 2 [row_at ''2024-03-15 10:00:00''])
          (scenario_state (scenario_record Pending None 0) False)) =
     error_reply 404 ''Site not found'' \<and>
   importStatus (snd (batchImportEvents (scenario_env True None)
          (scenario_request 0 2 [row_at ''2024-03-15 10:00:00''])
          (scenario_state (scenario_record Pending None 0) False))) \<noteq>
     importStatus (scenario_state (scenario_record Pending None 0) False)"
proof -
  let ?E = "scenario_env True None"
  let ?Q = "scenario_request 0 2 [row_at ''2024-03-15 10:00:00'']"
  let ?R = "scenario_record Pending None 0"
  let ?S = "scenario_state ?R False"
  have h1: "batchImportRequestSchema ?E ?Q"
    by (simp add: batchImportRequestSchema_def scenario_env_def scenario_request_def
        scenario_importId_def)
  have h2: "getUserHasAdminAccessToSite ?E (req_site ?Q)"
    by (simp add: scenario_env_def)
  have h3: "importStatus ?S (req_importId ?Q) = Some ?R"
    by (simp add: scenario_state_def scenario_request_def)
  have h4: "Number ?E (req_site ?Q) = Some (siteId ?R)"
    by (simp add: scenario_env_def scenario_request_def scenario_record_def)
  have h5: "status ?R = Pending"
    by (simp add: scenario_record_def)
  have h5': "status ?R = Pending \<or> status ?R = Processing"
    using h5 by simp
  have h6: "sites ?S (siteId ?R) = None"
    by (simp add: scenario_state_def)
  have h7: "platform_unset (platform ?R)"
    by (simp add: scenario_record_def platform_unset_def)
  from site_not_found_after_state_changes [OF h1 h2 h3 h4 h5' h6] h1 h2 h3 h4 h5 h6 h7
  show ?thesis by blast
qed


subsection \<open>Client: the messages a parse posts\<close>

lemma chunks_of_append: "chunks_of (a @ b) = chunks_of a @ chunks_of b"
  by (induction a rule: chunks_of.induct) simp_all

lemma handleParsedRow_skip:
  "\<not> admits lx st row \<Longrightarrow>
   handleParsedRow lx row i st = st\<lparr>totalSkipped := totalSkipped st + 1\<rparr>"
  by (auto simp add: handleParsedRow_def admits_def Let_def)

lemma isDateInRange_dates:
  "earliestAllowedDate st' = earliestAllowedDate st \<Longrightarrow>
   latestAllowedDate st' = latestAllowedDate st \<Longrightarrow>
   userStartDate st' = userStartDate st \<Longrightarrow>
   userEndDate st' = userEndDate st \<Longrightarrow>
   isDateInRange lx st' = isDateInRange lx st"
  by (simp add: isDateInRange_def fun_eq_iff)

lemma same_dates_admits: "same_dates st st' \<Longrightarrow> admits lx st' = admits lx st"
  using isDateInRange_dates [of st' st lx]
  by (simp add: same_dates_def admits_def fun_eq_iff)

lemma sendChunk_nonempty:
  "currentBatch st \<noteq> [] \<Longrightarrow>
   sendChunk st = st\<lparr>posted := posted st @ [CHUNK_READY (currentBatch st) (chunkIndex st)],
                     chunkIndex := chunkIndex st + 1, currentBatch := []\<rparr>"
  by (simp add: sendChunk_def postMessage_def)

lemma sendChunk_empty: "currentBatch st = [] \<Longrightarrow> sendChunk st = st"
  by (simp add: sendChunk_def)


lemma handleParsedRow_admit:
  assumes "admits lx st row"
  shows "\<exists>new. posted (handleParsedRow lx row i st) = posted st @ new \<and>
           chunks_of new =
             (if CHUNK_SIZE \<le> length (currentBatch st) + 1
              then [(currentBatch st @ [to_event row], chunkIndex st)] else []) \<and>
           currentBatch (handleParsedRow lx row i st) =
             (if CHUNK_SIZE \<le> length (currentBatch st) + 1 then []
              else currentBatch st @ [to_event row]) \<and>
           chunkIndex (handleParsedRow lx row i st) =
             chunkIndex st + (if CHUNK_SIZE \<le> length (currentBatch st) + 1 then 1 else 0) \<and>
           totalSkipped (handleParsedRow lx row i st) = totalSkipped st \<and>
           totalErrors (handleParsedRow lx row i st) = totalErrors st \<and>
           same_dates st (handleParsedRow lx row i st)"
  using assms
  by (simp add: handleParsedRow_def admits_def Let_def sendChunk_def sendProgress_def
      postMessage_def same_dates_def)

lemma chunk_trace_refl: "length (currentBatch st) < CHUNK_SIZE \<Longrightarrow> chunk_trace st st []"
  by (simp add: chunk_trace_def same_dates_def)

lemma chunk_trace_trans:
  assumes "chunk_trace a b e1" and "chunk_trace b c e2"
  shows "chunk_trace a c (e1 @ e2)"
proof -
  from assms(1) obtain n1 where 1: "posted b = posted a @ n1"
    "\<forall>c \<in> set (chunks_of n1). length (fst c) = CHUNK_SIZE"
    "map snd (chunks_of n1) = [chunkIndex a..<chunkIndex a + length (chunks_of n1)]"
    "chunkIndex b = chunkIndex a + length (chunks_of n1)"
    "concat (map fst (chunks_of n1)) @ currentBatch b = currentBatch a @ e1"
    "same_dates a b"
    unfolding chunk_trace_def by blast
  from assms(2) obtain n2 where 2: "posted c = posted b @ n2"
    "\<forall>c \<in> set (chunks_of n2). length (fst c) = CHUNK_SIZE"
    "map snd (chunks_of n2) = [chunkIndex b..<chunkIndex b + length (chunks_of n2)]"
    "chunkIndex c = chunkIndex b + length (chunks_of n2)"
    "concat (map fst (chunks_of n2)) @ currentBatch c = currentBatch b @ e2"
    "length (currentBatch c) < CHUNK_SIZE" "same_dates b c"
    unfolding chunk_trace_def by blast
  have p: "posted c = posted a @ (n1 @ n2)" using 1(1) 2(1) by simp
  have sizes: "\<forall>x \<in> set (chunks_of (n1 @ n2)). length (fst x) = CHUNK_SIZE"
    using 1(2) 2(2) by (auto simp add: chunks_of_append)
  have idx: "map snd (chunks_of (n1 @ n2)) =
             [chunkIndex a..<chunkIndex a + length (chunks_of (n1 @ n2))]"
  proof -
    have "[chunkIndex a..<chunkIndex a + (length (chunks_of n1) + length (chunks_of n2))] =
          [chunkIndex a..<chunkIndex a + length (chunks_of n1)] @
          [chunkIndex a + length (chunks_of n1)..<
             chunkIndex a + length (chunks_of n1) + length (chunks_of n2)]"
      by (metis add.assoc le_add1 upt_add_eq_append)
    then show ?thesis using 1(3,4) 2(3) by (simp add: chunks_of_append)
  qed
  have ci: "chunkIndex c = chunkIndex a + length (chunks_of (n1 @ n2))"
    using 1(4) 2(4) by (simp add: chunks_of_append)
  have "concat (map fst (chunks_of (n1 @ n2))) @ currentBatch c =
        concat (map fst (chunks_of n1)) @ (concat (map fst (chunks_of n2)) @ currentBatch c)"
    by (simp add: chunks_of_append)
  also have "\<dots> = concat (map fst (chunks_of n1)) @ currentBatch b @ e2" using 2(5) by simp
  also have "\<dots> = currentBatch a @ e1 @ e2" using 1(5) by (metis append_assoc)
  finally have cc: "concat (map fst (chunks_of (n1 @ n2))) @ currentBatch c =
                    currentBatch a @ e1 @ e2" .
  have sd: "same_dates a c" using 1(6) 2(7) by (simp add: same_dates_def)
  show ?thesis
    unfolding chunk_trace_def using p sizes idx ci cc 2(6) sd by blast
qed

lemma handleParsedRow_trace:
  assumes "length (currentBatch st) < CHUNK_SIZE"
  shows "chunk_trace st (handleParsedRow lx row i st)
           (if admits lx st row then [to_event row] else [])"
proof (cases "admits lx st row")
  case False
  then show ?thesis
    using assms by (simp add: handleParsedRow_skip chunk_trace_def same_dates_def)
next
  case True
  from handleParsedRow_admit [OF True, of i] obtain new where
    n: "posted (handleParsedRow lx row i st) = posted st @ new"
    "chunks_of new =
             (if CHUNK_SIZE \<le> length (currentBatch st) + 1
              then [(currentBatch st @ [to_event row], chunkIndex st)] else [])"
    "currentBatch (handleParsedRow lx row i st) =
             (if CHUNK_SIZE \<le> length (currentBatch st) + 1 then []
              else currentBatch st @ [to_event row])"
    "chunkIndex (handleParsedRow lx row i st) =
             chunkIndex st + (if CHUNK_SIZE \<le> length (currentBatch st) + 1 then 1 else 0)"
    "same_dates st (handleParsedRow lx row i st)"
    by blast
  show ?thesis
  proof (cases "CHUNK_SIZE \<le> length (currentBatch st) + 1")
    case full: True
    then have len: "length (currentBatch st) + 1 = CHUNK_SIZE" using assms by simp
    have "0 < CHUNK_SIZE" by (simp add: CHUNK_SIZE_def)
    then show ?thesis
      unfolding chunk_trace_def using n full len True
      by (intro conjI exI [of _ new]) simp_all
  next
    case notfull: False
    then show ?thesis
      unfolding chunk_trace_def using n True
      by (intro conjI exI [of _ new]) simp_all
  qed
qed

lemma chunk_trace_counters:
  assumes "chunk_trace st st1 evs"
    and "posted st2 = posted st1" and "chunkIndex st2 = chunkIndex st1"
    and "currentBatch st2 = currentBatch st1" and "same_dates st1 st2"
  shows "chunk_trace st st2 evs"
  using assms unfolding chunk_trace_def same_dates_def by simp

lemma step_trace:
  assumes "length (currentBatch st) < CHUNK_SIZE"
  shows "chunk_trace st (fst (step lx r (st, i)))
           (case data r of
              None \<Rightarrow> []
            | Some row \<Rightarrow> if admits lx st row then [to_event row] else [])"
proof (cases "data r")
  case None
  have "chunk_trace st st []" using assms by (rule chunk_trace_refl)
  then show ?thesis
    using None
    by (auto simp add: step_def Let_def same_dates_def elim!: chunk_trace_counters)
next
  case (Some row)
  have "chunk_trace st (handleParsedRow lx row i st)
           (if admits lx st row then [to_event row] else [])"
    using assms by (rule handleParsedRow_trace)
  then show ?thesis
    using Some
    by (auto simp add: step_def Let_def same_dates_def elim!: chunk_trace_counters)
qed

lemma run_steps_snoc: "run_steps lx (rs @ [r]) s = step lx r (run_steps lx rs s)"
  by (simp add: run_steps_def)

lemma accepted_snoc:
  "accepted lx st (rs @ [r]) =
   accepted lx st rs @
   (case data r of None \<Rightarrow> [] | Some row \<Rightarrow> if admits lx st row then [to_event row] else [])"
  by (simp add: accepted_def rows_of_def split: option.split)

lemma run_steps_trace:
  assumes "length (currentBatch st) < CHUNK_SIZE"
  shows "chunk_trace st (fst (run_steps lx rs (st, i))) (accepted lx st rs)"
proof (induction rs rule: rev_induct)
  case Nil
  then show ?case
    using assms by (simp add: run_steps_def accepted_def rows_of_def chunk_trace_refl)
next
  case (snoc r rs)
  obtain st1 i1 where s1: "run_steps lx rs (st, i) = (st1, i1)"
    by (cases "run_steps lx rs (st, i)")
  have t1: "chunk_trace st st1 (accepted lx st rs)" using snoc s1 by simp
  then have small: "length (currentBatch st1) < CHUNK_SIZE" and sd: "same_dates st st1"
    by (simp_all add: chunk_trace_def)
  have "chunk_trace st1 (fst (step lx r (st1, i1)))
           (case data r of
              None \<Rightarrow> []
            | Some row \<Rightarrow> if admits lx st1 row then [to_event row] else [])"
    using small by (rule step_trace)
  then have "chunk_trace st1 (fst (step lx r (st1, i1)))
           (case data r of
              None \<Rightarrow> []
            | Some row \<Rightarrow> if admits lx st row then [to_event row] else [])"
    unfolding same_dates_admits [OF sd, of lx] .
  with t1 show ?case
    unfolding run_steps_snoc s1 accepted_snoc by (rule chunk_trace_trans)
qed

lemma concat_full_chunks:
  "\<forall>c \<in> set cs. length (fst c) = n \<Longrightarrow> length (concat (map fst cs)) = length cs * n"
  by (induction cs) simp_all

lemma complete_posted:
  "posted (complete st) =
     posted st @
     (if currentBatch st = [] then [] else [CHUNK_READY (currentBatch st) (chunkIndex st)]) @
     [PROGRESS (totalParsed st) (totalSkipped st) (totalErrors st),
      COMPLETE (totalParsed st) (totalSkipped st) (totalErrors st) (errorDetails st)]"
  by (simp add: complete_def sendChunk_def sendProgress_def postMessage_def Let_def)

lemma complete_fields:
  "currentBatch (complete st) = []"
  "same_dates st (complete st)"
  by (simp_all add: complete_def sendChunk_def sendProgress_def postMessage_def Let_def
      same_dates_def)

lemma ceil_div_chunk:
  fixes k b n :: nat
  assumes "b < n"
  shows "(k * n + b + n - 1) div n = (if b = 0 then k else k + 1)"
    and "(k * n + b) div n = k"
proof -
  have n: "0 < n" using assms by simp
  show "(k * n + b) div n = k" using assms by simp
  show "(k * n + b + n - 1) div n = (if b = 0 then k else k + 1)"
  proof (cases "b = 0")
    case True
    have "k * n + b + n - 1 = k * n + (n - 1)" using True n by simp
    moreover have "(k * n + (n - 1)) div n = k"
      by (subst div_mult_self3) (use n in simp_all)
    ultimately show ?thesis using True by simp
  next
    case False
    have "k * n + b + n - 1 = (k + 1) * n + (b - 1)" using False by (simp add: algebra_simps)
    moreover have "((k + 1) * n + (b - 1)) div n = k + 1"
      by (subst div_mult_self3) (use assms in simp_all)
    ultimately show ?thesis using False by simp
  qed
qed

lemma parseCSV_chunks:
  assumes "currentBatch st = []" and "chunkIndex st = 0"
  shows "\<exists>new. posted (parseCSV lx f st) = posted st @ new \<and>
           (\<forall>c \<in> set (chunks_of new). 1 \<le> length (fst c) \<and> length (fst c) \<le> CHUNK_SIZE) \<and>
           (\<forall>c \<in> set (butlast (chunks_of new)). length (fst c) = CHUNK_SIZE) \<and>
           map snd (chunks_of new) = [0..<length (chunks_of new)] \<and>
           concat (map fst (chunks_of new)) @ currentBatch (parseCSV lx f st) =
             accepted lx st (step_calls f) \<and>
           (ending f = Completes \<longrightarrow>
              currentBatch (parseCSV lx f st) = [] \<and>
              length (chunks_of new) =
                (length (accepted lx st (step_calls f)) + CHUNK_SIZE - 1) div CHUNK_SIZE) \<and>
           (ending f \<noteq> Completes \<longrightarrow>
              (\<forall>c \<in> set (chunks_of new). length (fst c) = CHUNK_SIZE) \<and>
              length (currentBatch (parseCSV lx f st)) < CHUNK_SIZE \<and>
              length (chunks_of new) = length (accepted lx st (step_calls f)) div CHUNK_SIZE) \<and>
           same_dates st (parseCSV lx f st)"
proof -
  define st2 where "st2 = fst (run_steps lx (step_calls f) (st, 0))"
  define acc where "acc = accepted lx st (step_calls f)"
  have pos: "0 < CHUNK_SIZE" by (simp add: CHUNK_SIZE_def)
  have "chunk_trace st st2 acc"
    unfolding st2_def acc_def by (rule run_steps_trace) (use assms pos in simp)
  then obtain new where n: "posted st2 = posted st @ new"
    "\<forall>c \<in> set (chunks_of new). length (fst c) = CHUNK_SIZE"
    "map snd (chunks_of new) = [0..<length (chunks_of new)]"
    "chunkIndex st2 = length (chunks_of new)"
    "concat (map fst (chunks_of new)) @ currentBatch st2 = acc"
    "length (currentBatch st2) < CHUNK_SIZE" "same_dates st st2"
    unfolding chunk_trace_def using assms by auto
  define k where "k = length (chunks_of new)"
  have "length (concat (map fst (chunks_of new))) = k * CHUNK_SIZE"
    unfolding k_def using n(2) by (rule concat_full_chunks)
  then have len: "length acc = k * CHUNK_SIZE + length (currentBatch st2)"
    using n(5) by (metis length_append)
  have div: "length acc div CHUNK_SIZE = k"
    using len n(6) ceil_div_chunk(2) [of "length (currentBatch st2)" CHUNK_SIZE k]
    by simp
  have full_ok: "\<forall>c \<in> set (chunks_of new). 1 \<le> length (fst c) \<and> length (fst c) \<le> CHUNK_SIZE"
    using n(2) pos by simp
  have bl: "\<forall>c \<in> set (butlast (chunks_of new)). length (fst c) = CHUNK_SIZE"
    using n(2) by (meson in_set_butlastD)
  show ?thesis
  proof (cases "ending f")
    case Cancelled
    then have eq: "parseCSV lx f st = st2" by (simp add: parseCSV_def st2_def)
    show ?thesis
      unfolding eq acc_def [symmetric]
      using n full_ok bl div Cancelled k_def by (intro exI [of _ new]) simp
  next
    case (Fails e)
    then have eq: "parseCSV lx f st = postMessage (ERROR e) st2"
      by (simp add: parseCSV_def st2_def)
    have c: "chunks_of (new @ [ERROR e]) = chunks_of new" by (simp add: chunks_of_append)
    show ?thesis
      unfolding eq acc_def [symmetric]
      using n full_ok bl div Fails k_def c
      by (intro exI [of _ "new @ [ERROR e]"]) (simp add: postMessage_def same_dates_def)
  next
    case Completes
    then have eq: "parseCSV lx f st = complete st2" by (simp add: parseCSV_def st2_def)
    have sd: "same_dates st (complete st2)"
      using n(7) complete_fields(2) [of st2] by (simp add: same_dates_def)
    show ?thesis
    proof (cases "currentBatch st2 = []")
      case True
      define tail where "tail = [PROGRESS (totalParsed st2) (totalSkipped st2) (totalErrors st2),
        COMPLETE (totalParsed st2) (totalSkipped st2) (totalErrors st2) (errorDetails st2)]"
      have p: "posted (complete st2) = posted st @ (new @ tail)"
        using True n(1) by (simp add: complete_posted tail_def)
      have c: "chunks_of (new @ tail) = chunks_of new"
        by (simp add: chunks_of_append tail_def)
      have cnt: "(length acc + CHUNK_SIZE - 1) div CHUNK_SIZE = k"
        using len True pos ceil_div_chunk(1) [of 0 CHUNK_SIZE k] by simp
      show ?thesis
        unfolding eq acc_def [symmetric]
        using p c n(3,5) full_ok bl cnt sd True Completes k_def complete_fields(1) [of st2]
        by (intro exI [of _ "new @ tail"]) simp
    next
      case False
      define tail where "tail = [PROGRESS (totalParsed st2) (totalSkipped st2) (totalErrors st2),
        COMPLETE (totalParsed st2) (totalSkipped st2) (totalErrors st2) (errorDetails st2)]"
      define last_chunk where "last_chunk = CHUNK_READY (currentBatch st2) (chunkIndex st2)"
      have p: "posted (complete st2) = posted st @ (new @ last_chunk # tail)"
        using False n(1) by (simp add: complete_posted tail_def last_chunk_def)
      have c: "chunks_of (new @ last_chunk # tail) = chunks_of new @ [(currentBatch st2, k)]"
        using n(4) by (simp add: chunks_of_append tail_def last_chunk_def k_def)
      have b: "1 \<le> length (currentBatch st2)" using False by (cases "currentBatch st2") simp_all
      have cnt: "(length acc + CHUNK_SIZE - 1) div CHUNK_SIZE = k + 1"
        using len False n(6) ceil_div_chunk(1) [of "length (currentBatch st2)" CHUNK_SIZE k]
        by simp
      have sizes: "\<forall>c \<in> set (chunks_of new @ [(currentBatch st2, k)]).
                     1 \<le> length (fst c) \<and> length (fst c) \<le> CHUNK_SIZE"
        using full_ok b n(6) by auto
      have idx: "map snd (chunks_of new @ [(currentBatch st2, k)]) =
                 [0..<length (chunks_of new @ [(currentBatch st2, k)])]"
        using n(3) by (simp add: k_def)
      have cc: "concat (map fst (chunks_of new @ [(currentBatch st2, k)])) = acc"
        using n(5) by simp
      show ?thesis
        unfolding eq acc_def [symmetric]
        using p c sizes idx cc n(2) cnt sd Completes k_def complete_fields(1) [of st2]
        by (intro exI [of _ "new @ last_chunk # tail"]) simp
    qed
  qed
qed

lemma createDateRangeFilter_fields:
  assumes "createDateRangeFilter lx a b c d st = Inr st1"
  shows "posted st1 = posted st" "currentBatch st1 = currentBatch st"
    "chunkIndex st1 = chunkIndex st"
  using assms
  by (auto simp add: createDateRangeFilter_def Let_def split: if_splits option.splits prod.splits)

lemma accepted_same_dates: "same_dates st st' \<Longrightarrow> accepted lx st' rs = accepted lx st rs"
  by (simp add: accepted_def same_dates_admits)

lemma accepted_timestamps: "e \<in> set (accepted lx st rs) \<Longrightarrow> created_at e \<noteq> []"
  by (auto simp add: accepted_def admits_def)

lemma on_parse_start_chunks:
  assumes "on_parse_start lx m st = Inr st'"
  shows "\<exists>new. posted st' = posted st @ new \<and>
           (\<forall>c \<in> set (chunks_of new). 1 \<le> length (fst c) \<and> length (fst c) \<le> CHUNK_SIZE) \<and>
           (\<forall>c \<in> set (butlast (chunks_of new)). length (fst c) = CHUNK_SIZE) \<and>
           map snd (chunks_of new) = [0..<length (chunks_of new)] \<and>
           concat (map fst (chunks_of new)) @ currentBatch st' =
             accepted lx st' (step_calls (msg_file m)) \<and>
           (ending (msg_file m) = Completes \<longrightarrow>
              currentBatch st' = [] \<and>
              length (chunks_of new) =
                (length (accepted lx st' (step_calls (msg_file m))) + CHUNK_SIZE - 1) div CHUNK_SIZE) \<and>
           (ending (msg_file m) \<noteq> Completes \<longrightarrow>
              (\<forall>c \<in> set (chunks_of new). length (fst c) = CHUNK_SIZE) \<and>
              length (currentBatch st') < CHUNK_SIZE \<and>
              length (chunks_of new) =
                length (accepted lx st' (step_calls (msg_file m))) div CHUNK_SIZE)"
proof -
  from assms obtain st1 where
    f: "createDateRangeFilter lx (msg_earliestAllowedDate m) (msg_latestAllowedDate m)
          (startDate m) (endDate m) (reset_state st) = Inr st1"
    and r: "st' = parseCSV lx (msg_file m) st1"
    by (auto simp add: on_parse_start_def split: sum.splits)
  have st1: "posted st1 = posted st" "currentBatch st1 = []" "chunkIndex st1 = 0"
    using createDateRangeFilter_fields [OF f] by (simp_all add: reset_state_def)
  from parseCSV_chunks [OF st1(2,3), of lx "msg_file m"] obtain new where
    n: "posted (parseCSV lx (msg_file m) st1) = posted st1 @ new \<and>
           (\<forall>c \<in> set (chunks_of new). 1 \<le> length (fst c) \<and> length (fst c) \<le> CHUNK_SIZE) \<and>
           (\<forall>c \<in> set (butlast (chunks_of new)). length (fst c) = CHUNK_SIZE) \<and>
           map snd (chunks_of new) = [0..<length (chunks_of new)] \<and>
           concat (map fst (chunks_of new)) @ currentBatch (parseCSV lx (msg_file m) st1) =
             accepted lx st1 (step_calls (msg_file m)) \<and>
           (ending (msg_file m) = Completes \<longrightarrow>
              currentBatch (parseCSV lx (msg_file m) st1) = [] \<and>
              length (chunks_of new) =
                (length (accepted lx st1 (step_calls (msg_file m))) + CHUNK_SIZE - 1) div CHUNK_SIZE) \<and>
           (ending (msg_file m) \<noteq> Completes \<longrightarrow>
              (\<forall>c \<in> set (chunks_of new). length (fst c) = CHUNK_SIZE) \<and>
              length (currentBatch (parseCSV lx (msg_file m) st1)) < CHUNK_SIZE \<and>
              length (chunks_of new) = length (accepted lx st1 (step_calls (msg_file m))) div CHUNK_SIZE) \<and>
           same_dates st1 (parseCSV lx (msg_file m) st1)"
    by blast
  then have "same_dates st1 st'" using r by simp
  then have a: "accepted lx st' (step_calls (msg_file m)) = accepted lx st1 (step_calls (msg_file m))"
    by (rule accepted_same_dates)
  show ?thesis
    unfolding r a [unfolded r] using n st1(1) by (intro exI [of _ new]) simp
qed

lemma step_counters:
  "totalErrors (fst (step lx r (st, i))) =
     totalErrors st + (if errors r = [] then 0 else 1) \<and>
   totalSkipped (fst (step lx r (st, i))) =
     totalSkipped st +
     (case data r of None \<Rightarrow> 0 | Some row \<Rightarrow> if admits lx st row then 0 else 1)"
proof (cases "data r")
  case None
  then show ?thesis by (simp add: step_def Let_def)
next
  case (Some row)
  show ?thesis
  proof (cases "admits lx st row")
    case True
    from handleParsedRow_admit [OF True, of i] show ?thesis
      using Some True by (auto simp add: step_def Let_def)
  next
    case False
    then show ?thesis
      using Some by (simp add: step_def Let_def handleParsedRow_skip)
  qed
qed

lemma scenario_parse_runs:
  "on_parse_start scenario_luxon (scenario_start rs e) scenario_worker =
   Inr (parseCSV scenario_luxon \<lparr>step_calls = rs, ending = e\<rparr> scenario_worker)"
  by (simp add: on_parse_start_def createDateRangeFilter_def scenario_start_def
      scenario_luxon_def scenario_worker_def reset_state_def given_def Let_def)

subsection \<open>Client: chunking\<close>

text \<open>
  C8. \<open>CHUNK_SIZE\<close> is 5000. For the \<^verbatim>\<open>CHUNK_READY\<close> messages posted by one \<^verbatim>\<open>PARSE_START\<close>
  (whatever the file, the date filters and the earlier state of the worker): every one
  carries between 1 and 5000 events; every one but the last carries exactly 5000; the chunk
  indices are 0, 1, 2, ... in order; the chunks in order, followed by what is still in the
  buffer, are exactly the accepted rows in order. When the parse completes, the buffer is
  empty and the number of chunks is the number of accepted rows divided by 5000, rounded
  up: the full chunks plus exactly one final partial chunk if rows remain. When the run of
  \<^verbatim>\<open>step\<close> calls stops before completion, at any point, all chunks posted so far are full,
  fewer than 5000 rows are waiting, and the number of chunks is the number of accepted rows
  divided by 5000, rounded down: a chunk has gone out as soon as the buffer reached 5000.
\<close>

theorem chunks_full_then_one_partial:
  assumes "on_parse_start lx m st = Inr st'"
  shows "CHUNK_SIZE = 5000 \<and>
         (\<forall>c \<in> set (chunks_of (drop (length (posted st)) (posted st'))).
            1 \<le> length (fst c) \<and> length (fst c) \<le> 5000) \<and>
         (\<forall>c \<in> set (butlast (chunks_of (drop (length (posted st)) (posted st')))).
            length (fst c) = 5000) \<and>
         map snd (chunks_of (drop (length (posted st)) (posted st'))) =
           [0..<length (chunks_of (drop (length (posted st)) (posted st')))] \<and>
         concat (map fst (chunks_of (drop (length (posted st)) (posted st')))) @ currentBatch st' =
           accepted lx st' (step_calls (msg_file m)) \<and>
         (ending (msg_file m) = Completes \<longrightarrow>
            currentBatch st' = [] \<and>
            length (chunks_of (drop (length (posted st)) (posted st'))) =
              (length (accepted lx st' (step_calls (msg_file m))) + 4999) div 5000) \<and>
         (ending (msg_file m) \<noteq> Completes \<longrightarrow>
            (\<forall>c \<in> set (chunks_of (drop (length (posted st)) (posted st'))).
               length (fst c) = 5000) \<and>
            length (currentBatch st') < 5000 \<and>
            length (chunks_of (drop (length (posted st)) (posted st'))) =
              length (accepted lx st' (step_calls (msg_file m))) div 5000)"
proof -
  from on_parse_start_chunks [OF assms] obtain new where
    p: "posted st' = posted st @ new" and
    n: "(\<forall>c \<in> set (chunks_of new). 1 \<le> length (fst c) \<and> length (fst c) \<le> CHUNK_SIZE) \<and>
           (\<forall>c \<in> set (butlast (chunks_of new)). length (fst c) = CHUNK_SIZE) \<and>
           map snd (chunks_of new) = [0..<length (chunks_of new)] \<and>
           concat (map fst (chunks_of new)) @ currentBatch st' =
             accepted lx st' (step_calls (msg_file m)) \<and>
           (ending (msg_file m) = Completes \<longrightarrow>
              currentBatch st' = [] \<and>
              length (chunks_of new) =
                (length (accepted lx st' (step_calls (msg_file m))) + CHUNK_SIZE - 1) div CHUNK_SIZE) \<and>
           (ending (msg_file m) \<noteq> Completes \<longrightarrow>
              (\<forall>c \<in> set (chunks_of new). length (fst c) = CHUNK_SIZE) \<and>
              length (currentBatch st') < CHUNK_SIZE \<and>
              length (chunks_of new) =
                length (accepted lx st' (step_calls (msg_file m))) div CHUNK_SIZE)"
    by blast
  have d: "drop (length (posted st)) (posted st') = new" using p by simp
  have c: "CHUNK_SIZE = 5000" by (simp add: CHUNK_SIZE_def)
  have e: "x + CHUNK_SIZE - 1 = x + 4999" for x by (simp add: c)
  show ?thesis
    using n unfolding d e unfolding c by blast
qed

theorem chunks_full_then_one_partial_witness:
  "on_parse_start scenario_luxon
     (scenario_start [\<lparr>data = Some (scenario_row ''2024-03-15 10:00:00''), errors = []\<rparr>]
        Completes) scenario_worker =
     Inr (parseCSV scenario_luxon
            \<lparr>step_calls = [\<lparr>data = Some (scenario_row ''2024-03-15 10:00:00''), errors = []\<rparr>],
             ending = Completes\<rparr> scenario_worker) \<and>
   chunks_of (drop (length (posted scenario_worker))
     (posted (parseCSV scenario_luxon
            \<lparr>step_calls = [\<lparr>data = Some (scenario_row ''2024-03-15 10:00:00''), errors = []\<rparr>],
             ending = Completes\<rparr> scenario_worker))) =
     [([to_event (scenario_row ''2024-03-15 10:00:00'')], 0)] \<and>
   list_all (\<lambda>c. 1 \<le> length (fst c) \<and> length (fst c) \<le> 5000)
     (chunks_of (drop (length (posted scenario_worker))
     (posted (parseCSV scenario_luxon
            \<lparr>step_calls = [\<lparr>data = Some (scenario_row ''2024-03-15 10:00:00''), errors = []\<rparr>],
             ending = Completes\<rparr> scenario_worker)))) \<and>
   map snd (chunks_of (drop (length (posted scenario_worker))
     (posted (parseCSV scenario_luxon
            \<lparr>step_calls = [\<lparr>data = Some (scenario_row ''2024-03-15 10:00:00''), errors = []\<rparr>],
             ending = Completes\<rparr> scenario_worker)))) =
     [0..<length (chunks_of (drop (length (posted scenario_worker))
     (posted (parseCSV scenario_luxon
            \<lparr>step_calls = [\<lparr>data = Some (scenario_row ''2024-03-15 10:00:00''), errors = []\<rparr>],
             ending = Completes\<rparr> scenario_worker))))]"
proof -
  let ?rs = "[\<lparr>data = Some (scenario_row ''2024-03-15 10:00:00''), errors = []\<rparr>]"
  let ?S = "parseCSV scenario_luxon \<lparr>step_calls = ?rs, ending = Completes\<rparr> scenario_worker"
  have h: "on_parse_start scenario_luxon (scenario_start ?rs Completes) scenario_worker = Inr ?S"
    by (rule scenario_parse_runs)
  have ev: "chunks_of (drop (length (posted scenario_worker)) (posted ?S)) =
            [([to_event (scenario_row ''2024-03-15 10:00:00'')], 0)]"
    by (simp add: parseCSV_def run_steps_def step_def handleParsedRow_def isDateInRange_def
        dt_less_def complete_def sendChunk_def sendProgress_def postMessage_def Let_def
        CHUNK_SIZE_def PROGRESS_UPDATE_INTERVAL_def to_event_def field_def
        scenario_row_def scenario_luxon_def scenario_worker_def)
  from chunks_full_then_one_partial [OF h] h ev
  show ?thesis unfolding list_all_iff by blast
qed

subsection \<open>Client: which counter a row goes to\<close>

lemma isDateInRange_bounds:
  "isDateInRange lx st ts =
     (case fromFormat lx ts ''yyyy-MM-dd HH:mm:ss'' of
        None \<Rightarrow> False
      | Some t \<Rightarrow>
          (\<forall>y. earliestAllowedDate st = Some (Some y) \<longrightarrow> y \<le> t) \<and>
          (\<forall>y. latestAllowedDate st = Some (Some y) \<longrightarrow> t \<le> y) \<and>
          (\<forall>y. userStartDate st = Some (Some y) \<longrightarrow> y \<le> t) \<and>
          (\<forall>y. userEndDate st = Some (Some y) \<longrightarrow> t \<le> y))"
  by (auto simp add: isDateInRange_def dt_less_def Let_def split: option.splits)

text \<open>
  C5 (as amended). A row whose timestamp field is present but does not parse is counted as
  skipped: \<^verbatim>\<open>handleParsedRow\<close> increments \<open>totalSkipped\<close> and changes nothing else, so it is not
  counted as an error. For every \<^verbatim>\<open>step\<close> call, \<open>totalErrors\<close> goes up by one exactly when
  Papa Parse reported errors for the row, and \<open>totalSkipped\<close> goes up by one exactly when
  there is a row and it lacks the timestamp, or its timestamp does not parse, or its
  timestamp parses to an instant before the earliest allowed date, after the latest allowed
  date, before the user's start date or after the user's end date (each bound counting only
  when it is set and valid). \<^verbatim>\<open>isDateInRange\<close> is false for a timestamp that does not parse,
  and for one that parses it is true exactly when the instant is within those four bounds.
\<close>

theorem unparseable_timestamp_is_skipped:
  "(field row ''created_at'' \<noteq> [] \<and>
    fromFormat lx (field row ''created_at'') ''yyyy-MM-dd HH:mm:ss'' = None \<longrightarrow>
      handleParsedRow lx row i st = st\<lparr>totalSkipped := totalSkipped st + 1\<rparr>) \<and>
   totalErrors (fst (step lx r (st, i))) =
     totalErrors st + (if errors r = [] then 0 else 1) \<and>
   totalSkipped (fst (step lx r (st, i))) =
     totalSkipped st +
     (case data r of
        None \<Rightarrow> 0
      | Some row \<Rightarrow>
          if field row ''created_at'' = [] \<or> \<not> isDateInRange lx st (field row ''created_at'')
          then 1 else 0) \<and>
   (fromFormat lx ts ''yyyy-MM-dd HH:mm:ss'' = None \<longrightarrow> \<not> isDateInRange lx st ts) \<and>
   (fromFormat lx ts ''yyyy-MM-dd HH:mm:ss'' = Some t \<longrightarrow>
      isDateInRange lx st ts =
        ((\<forall>y. earliestAllowedDate st = Some (Some y) \<longrightarrow> y \<le> t) \<and>
         (\<forall>y. latestAllowedDate st = Some (Some y) \<longrightarrow> t \<le> y) \<and>
         (\<forall>y. userStartDate st = Some (Some y) \<longrightarrow> y \<le> t) \<and>
         (\<forall>y. userEndDate st = Some (Some y) \<longrightarrow> t \<le> y))) \<and>
   totalSkipped (fst (step lx r (st, i))) =
     totalSkipped st +
     (case data r of
        None \<Rightarrow> 0
      | Some row \<Rightarrow>
          if field row ''created_at'' = [] then 1
          else (case fromFormat lx (field row ''created_at'') ''yyyy-MM-dd HH:mm:ss'' of
                  None \<Rightarrow> 1
                | Some c \<Rightarrow>
                    if (\<exists>y. earliestAllowedDate st = Some (Some y) \<and> c < y) \<or>
                       (\<exists>y. latestAllowedDate st = Some (Some y) \<and> y < c) \<or>
                       (\<exists>y. userStartDate st = Some (Some y) \<and> c < y) \<or>
                       (\<exists>y. userEndDate st = Some (Some y) \<and> y < c)
                    then 1 else 0))"
proof -
  have a: "handleParsedRow lx row i st = st\<lparr>totalSkipped := totalSkipped st + 1\<rparr>"
    if "fromFormat lx (field row ''created_at'') ''yyyy-MM-dd HH:mm:ss'' = None"
    using that
    by (intro handleParsedRow_skip) (simp add: admits_def isDateInRange_def to_event_def)
  have b: "(case data r of None \<Rightarrow> 0 | Some row \<Rightarrow> if admits lx st row then 0 else 1) =
           (case data r of
              None \<Rightarrow> (0::nat)
            | Some row \<Rightarrow>
                if field row ''created_at'' = [] \<or> \<not> isDateInRange lx st (field row ''created_at'')
                then 1 else 0)"
    by (auto simp add: admits_def to_event_def split: option.split)
  have c: "\<not> isDateInRange lx st ts" if "fromFormat lx ts ''yyyy-MM-dd HH:mm:ss'' = None"
    using that by (simp add: isDateInRange_bounds)
  have d: "isDateInRange lx st ts =
        ((\<forall>y. earliestAllowedDate st = Some (Some y) \<longrightarrow> y \<le> t) \<and>
         (\<forall>y. latestAllowedDate st = Some (Some y) \<longrightarrow> t \<le> y) \<and>
         (\<forall>y. userStartDate st = Some (Some y) \<longrightarrow> y \<le> t) \<and>
         (\<forall>y. userEndDate st = Some (Some y) \<longrightarrow> t \<le> y))"
    if "fromFormat lx ts ''yyyy-MM-dd HH:mm:ss'' = Some t"
    using that by (simp add: isDateInRange_bounds)
  have e: "(case data r of
              None \<Rightarrow> (0::nat)
            | Some row \<Rightarrow>
                if field row ''created_at'' = [] \<or> \<not> isDateInRange lx st (field row ''created_at'')
                then 1 else 0) =
     (case data r of
        None \<Rightarrow> 0
      | Some row \<Rightarrow>
          if field row ''created_at'' = [] then 1
          else (case fromFormat lx (field row ''created_at'') ''yyyy-MM-dd HH:mm:ss'' of
                  None \<Rightarrow> 1
                | Some c \<Rightarrow>
                    if (\<exists>y. earliestAllowedDate st = Some (Some y) \<and> c < y) \<or>
                       (\<exists>y. latestAllowedDate st = Some (Some y) \<and> y < c) \<or>
                       (\<exists>y. userStartDate st = Some (Some y) \<and> c < y) \<or>
                       (\<exists>y. userEndDate st = Some (Some y) \<and> y < c)
                    then 1 else 0))"
    by (auto simp add: isDateInRange_bounds not_le not_less split: option.split)
  have s: "totalErrors (fst (step lx r (st, i))) =
             totalErrors st + (if errors r = [] then 0 else 1)"
    "totalSkipped (fst (step lx r (st, i))) =
     totalSkipped st +
     (case data r of
        None \<Rightarrow> 0
      | Some row \<Rightarrow>
          if field row ''created_at'' = [] \<or> \<not> isDateInRange lx st (field row ''created_at'')
          then 1 else 0)"
    using step_counters [of lx r st i] unfolding b by blast+
  show ?thesis
    using a c d s(1) s(2) s(2) [unfolded e] by blast
qed

theorem unparseable_timestamp_is_skipped_witness:
  "field (scenario_row ''not-a-date'') ''created_at'' \<noteq> [] \<and>
   fromFormat scenario_luxon (field (scenario_row ''not-a-date'') ''created_at'')
     ''yyyy-MM-dd HH:mm:ss'' = None \<and>
   handleParsedRow scenario_luxon (scenario_row ''not-a-date'') 0 scenario_worker =
     scenario_worker\<lparr>totalSkipped := totalSkipped scenario_worker + 1\<rparr> \<and>
   \<not> isDateInRange scenario_luxon scenario_worker ''not-a-date'' \<and>
   earliestAllowedDate scenario_worker = Some (Some 1704067200000) \<and>
   latestAllowedDate scenario_worker = Some (Some 1719791999999) \<and>
   fromFormat scenario_luxon ''2023-12-31 23:59:59'' ''yyyy-MM-dd HH:mm:ss'' =
     Some 1704067199000 \<and>
   \<not> isDateInRange scenario_luxon scenario_worker ''2023-12-31 23:59:59'' \<and>
   totalSkipped (fst (step scenario_luxon
       \<lparr>data = Some (scenario_row ''2023-12-31 23:59:59''), errors = []\<rparr>
       (scenario_worker, 0))) = 1 \<and>
   fromFormat scenario_luxon ''2024-03-15 10:00:00'' ''yyyy-MM-dd HH:mm:ss'' =
     Some 1710496800000 \<and>
   isDateInRange scenario_luxon scenario_worker ''2024-03-15 10:00:00'' \<and>
   totalSkipped (fst (step scenario_luxon
       \<lparr>data = Some (scenario_row ''2024-03-15 10:00:00''), errors = []\<rparr>
       (scenario_worker, 0))) = 0"
proof -
  have f: "field (scenario_row ts) ''created_at'' = ts" for ts
    by (simp add: field_def scenario_row_def)
  have p: "fromFormat scenario_luxon ''not-a-date'' ''yyyy-MM-dd HH:mm:ss'' = None"
    "fromFormat scenario_luxon ''2023-12-31 23:59:59'' ''yyyy-MM-dd HH:mm:ss'' =
       Some 1704067199000"
    "fromFormat scenario_luxon ''2024-03-15 10:00:00'' ''yyyy-MM-dd HH:mm:ss'' =
       Some 1710496800000"
    by (simp_all add: scenario_luxon_def)
  have w: "earliestAllowedDate scenario_worker = Some (Some 1704067200000)"
    "latestAllowedDate scenario_worker = Some (Some 1719791999999)"
    "userStartDate scenario_worker = None" "userEndDate scenario_worker = None"
    "totalSkipped scenario_worker = 0"
    by (simp_all add: scenario_worker_def)
  note bad = unparseable_timestamp_is_skipped
    [where row = "scenario_row ''not-a-date''" and lx = scenario_luxon and i = 0
       and st = scenario_worker and ts = "''not-a-date''"]
  note early = unparseable_timestamp_is_skipped
    [where lx = scenario_luxon and i = 0 and st = scenario_worker
       and r = "\<lparr>data = Some (scenario_row ''2023-12-31 23:59:59''), errors = []\<rparr>"
       and ts = "''2023-12-31 23:59:59''" and t = 1704067199000]
  note good = unparseable_timestamp_is_skipped
    [where lx = scenario_luxon and i = 0 and st = scenario_worker
       and r = "\<lparr>data = Some (scenario_row ''2024-03-15 10:00:00''), errors = []\<rparr>"
       and ts = "''2024-03-15 10:00:00''" and t = 1710496800000]
  have 1: "handleParsedRow scenario_luxon (scenario_row ''not-a-date'') 0 scenario_worker =
             scenario_worker\<lparr>totalSkipped := totalSkipped scenario_worker + 1\<rparr>"
    "\<not> isDateInRange scenario_luxon scenario_worker ''not-a-date''"
    using bad p(1) by (simp_all add: f)
  have 2: "\<not> isDateInRange scenario_luxon scenario_worker ''2023-12-31 23:59:59''"
    "totalSkipped (fst (step scenario_luxon
       \<lparr>data = Some (scenario_row ''2023-12-31 23:59:59''), errors = []\<rparr>
       (scenario_worker, 0))) = 1"
    using early p(2) w by (simp_all add: f)
  have 3: "isDateInRange scenario_luxon scenario_worker ''2024-03-15 10:00:00''"
    "totalSkipped (fst (step scenario_luxon
       \<lparr>data = Some (scenario_row ''2024-03-15 10:00:00''), errors = []\<rparr>
       (scenario_worker, 0))) = 0"
    using good p(3) w by (simp_all add: f)
  show ?thesis
    using 1 2 3 p w by (simp add: f)
qed

text \<open>
  C5 as stated fails: a row with \<^verbatim>\<open>created_at\<close> \<open>''not-a-date''\<close>, for which Luxon gives an
  invalid \<^verbatim>\<open>DateTime\<close>, and no parser error. After the \<^verbatim>\<open>step\<close> call the errors counter is
  still 0 and the skipped counter is 1.
\<close>

theorem unparseable_timestamp_not_an_error:
  "field (scenario_row ''not-a-date'') ''created_at'' = ''not-a-date'' \<and>
   fromFormat scenario_luxon ''not-a-date'' ''yyyy-MM-dd HH:mm:ss'' = None \<and>
   totalErrors scenario_worker = 0 \<and> totalSkipped scenario_worker = 0 \<and>
   totalErrors (fst (step scenario_luxon
       \<lparr>data = Some (scenario_row ''not-a-date''), errors = []\<rparr> (scenario_worker, 0))) = 0 \<and>
   totalSkipped (fst (step scenario_luxon
       \<lparr>data = Some (scenario_row ''not-a-date''), errors = []\<rparr> (scenario_worker, 0))) = 1"
  by (simp add: step_def handleParsedRow_def isDateInRange_def to_event_def field_def Let_def
      scenario_row_def scenario_luxon_def scenario_worker_def)

text \<open>
  C7 (as amended). A row whose \<^verbatim>\<open>created_at\<close> is empty or absent is counted as skipped:
  \<^verbatim>\<open>handleParsedRow\<close> increments \<open>totalSkipped\<close> and changes nothing else, so the missing
  timestamp is not counted as an error; in the \<^verbatim>\<open>step\<close> call for that row the batch and the
  posted messages stay as they are, and \<open>totalErrors\<close> goes up by one exactly when Papa Parse
  reported errors for the row. No event posted in a \<^verbatim>\<open>CHUNK_READY\<close> message of a parse has an
  empty \<^verbatim>\<open>created_at\<close>, so such a row is in no emitted batch.
\<close>

theorem missing_timestamp_is_skipped_and_never_sent:
  "(field row ''created_at'' = [] \<longrightarrow>
      handleParsedRow lx row i st = st\<lparr>totalSkipped := totalSkipped st + 1\<rparr> \<and>
      (data r = Some row \<longrightarrow>
         totalSkipped (fst (step lx r (st, i))) = totalSkipped st + 1 \<and>
         totalErrors (fst (step lx r (st, i))) =
           totalErrors st + (if errors r = [] then 0 else 1) \<and>
         currentBatch (fst (step lx r (st, i))) = currentBatch st \<and>
         posted (fst (step lx r (st, i))) = posted st)) \<and>
   (on_parse_start lx m st0 = Inr st' \<longrightarrow>
      (\<forall>c \<in> set (chunks_of (drop (length (posted st0)) (posted st'))).
         \<forall>e \<in> set (fst c). created_at e \<noteq> []))"
proof -
  have a: "handleParsedRow lx row i st = st\<lparr>totalSkipped := totalSkipped st + 1\<rparr>"
    if "field row ''created_at'' = []"
    using that by (intro handleParsedRow_skip) (simp add: admits_def to_event_def)
  have b: "totalSkipped (fst (step lx r (st, i))) = totalSkipped st + 1 \<and>
         totalErrors (fst (step lx r (st, i))) =
           totalErrors st + (if errors r = [] then 0 else 1) \<and>
         currentBatch (fst (step lx r (st, i))) = currentBatch st \<and>
         posted (fst (step lx r (st, i))) = posted st"
    if "field row ''created_at'' = []" and "data r = Some row"
    using that a by (simp add: step_def Let_def)
  have c: "\<forall>c \<in> set (chunks_of (drop (length (posted st0)) (posted st'))).
         \<forall>e \<in> set (fst c). created_at e \<noteq> []"
    if run: "on_parse_start lx m st0 = Inr st'"
  proof -
    from on_parse_start_chunks [OF run] obtain new where
      p: "posted st' = posted st0 @ new" and
      n: "concat (map fst (chunks_of new)) @ currentBatch st' =
             accepted lx st' (step_calls (msg_file m))"
      by blast
    have d: "drop (length (posted st0)) (posted st') = new" using p by simp
    have "e \<in> set (accepted lx st' (step_calls (msg_file m)))"
      if "c \<in> set (chunks_of new)" and "e \<in> set (fst c)" for c e
    proof -
      from that have "e \<in> set (concat (map fst (chunks_of new)))" by auto
      then show ?thesis unfolding n [symmetric] by simp
    qed
    then show ?thesis unfolding d using accepted_timestamps by blast
  qed
  show ?thesis using a b c by blast
qed

theorem missing_timestamp_is_skipped_and_never_sent_witness:
  "field [''session_id'' \<mapsto> ''s1'', ''hostname'' \<mapsto> ''example.com''] ''created_at'' = [] \<and>
   handleParsedRow scenario_luxon [''session_id'' \<mapsto> ''s1'', ''hostname'' \<mapsto> ''example.com''] 0
       scenario_worker =
     scenario_worker\<lparr>totalSkipped := totalSkipped scenario_worker + 1\<rparr> \<and>
   on_parse_start scenario_luxon
     (scenario_start [\<lparr>data = Some (scenario_row ''2024-03-15 10:00:00''), errors = []\<rparr>,
                      \<lparr>data = Some [''session_id'' \<mapsto> ''s1'', ''hostname'' \<mapsto> ''example.com''],
                       errors = []\<rparr>]
        Completes) scenario_worker =
     Inr (parseCSV scenario_luxon
            \<lparr>step_calls = [\<lparr>data = Some (scenario_row ''2024-03-15 10:00:00''), errors = []\<rparr>,
                      \<lparr>data = Some [''session_id'' \<mapsto> ''s1'', ''hostname'' \<mapsto> ''example.com''],
                       errors = []\<rparr>],
             ending = Completes\<rparr> scenario_worker) \<and>
   list_all (\<lambda>c. list_all (\<lambda>e. created_at e \<noteq> []) (fst c))
     (chunks_of (drop (length (posted scenario_worker))
       (posted (parseCSV scenario_luxon
            \<lparr>step_calls = [\<lparr>data = Some (scenario_row ''2024-03-15 10:00:00''), errors = []\<rparr>,
                      \<lparr>data = Some [''session_id'' \<mapsto> ''s1'', ''hostname'' \<mapsto> ''example.com''],
                       errors = []\<rparr>],
             ending = Completes\<rparr> scenario_worker))))"
proof -
  let ?row = "[''session_id'' \<mapsto> ''s1'', ''hostname'' \<mapsto> ''example.com'']"
  let ?rs = "[\<lparr>data = Some (scenario_row ''2024-03-15 10:00:00''), errors = []\<rparr>,
              \<lparr>data = Some ?row, errors = []\<rparr>]"
  let ?S = "parseCSV scenario_luxon \<lparr>step_calls = ?rs, ending = Completes\<rparr> scenario_worker"
  have f: "field ?row ''created_at'' = []"
    by (simp add: field_def)
  have h: "on_parse_start scenario_luxon (scenario_start ?rs Completes) scenario_worker = Inr ?S"
    by (rule scenario_parse_runs)
  from missing_timestamp_is_skipped_and_never_sent
    [of ?row scenario_luxon 0 scenario_worker _ "scenario_start ?rs Completes" scenario_worker ?S]
    f h
  show ?thesis unfolding list_all_iff by blast
qed

text \<open>
  C7 as stated fails: a line with too few fields has no \<^verbatim>\<open>created_at\<close> column and comes with
  Papa Parse's error for it. After the \<^verbatim>\<open>step\<close> call the row has been counted as skipped and
  as an error.
\<close>

theorem missing_timestamp_also_counted_as_error:
  "field [''session_id'' \<mapsto> ''s1'', ''hostname'' \<mapsto> ''example.com''] ''created_at'' = [] \<and>
   totalSkipped scenario_worker = 0 \<and> totalErrors scenario_worker = 0 \<and>
   totalSkipped (fst (step scenario_luxon
       \<lparr>data = Some [''session_id'' \<mapsto> ''s1'', ''hostname'' \<mapsto> ''example.com''],
        errors = [''Too few fields: expected 36 fields but parsed 5'']\<rparr>
       (scenario_worker, 0))) = 1 \<and>
   totalErrors (fst (step scenario_luxon
       \<lparr>data = Some [''session_id'' \<mapsto> ''s1'', ''hostname'' \<mapsto> ''example.com''],
        errors = [''Too few fields: expected 36 fields but parsed 5'']\<rparr>
       (scenario_worker, 0))) = 1"
  by (simp add: step_def handleParsedRow_def to_event_def field_def Let_def scenario_worker_def)

end
